theory Spec2Isabelle
  imports Complex_Main
begin

section \<open>The drawing component of \<^verbatim>\<open>src/app/page.tsx\<close>\<close>

text \<open>
  The component \<^verbatim>\<open>DrawingApp\<close> keeps its state in React state variables and two refs,
  and draws on one HTML canvas. Every handler runs to its end on the state of the last
  render; the state below is that state together with the canvas, its 2D context and the
  images whose \<^verbatim>\<open>load\<close> event is still due.

  JavaScript numbers are modelled by \<^typ>\<open>real\<close> (coordinates, brush size) and by
  \<^typ>\<open>int\<close> (the layer index). The layer objects are values: the program copies the array
  and then assigns to \<^verbatim>\<open>data\<close> of an object it shares with the old array, and an
  \<^verbatim>\<open>onload\<close> closure keeps the array of the render it was made in. Copying the values
  agrees with that as long as no handler assigns to \<^verbatim>\<open>data\<close> of a layer between the
  start of an image load and its callback. All runs below are of that kind: \<open>exec\<close> brings
  every load to its end before the next command, and in the runs with a late load only
  \<open>addLayer\<close> and \<open>selectLayer\<close> come in between.
\<close>

subsection \<open>The canvas\<close>

type_synonym point = "real \<times> real"

text \<open>The current path of the context: the calls made since the last \<^verbatim>\<open>beginPath\<close>.\<close>

datatype pathcmd =
    MoveTo real real
  | LineTo real real
  | Arc real real real

text \<open>
  The bitmap of the canvas is the list of the drawing calls made on it since it was last
  blank, oldest first: \<^verbatim>\<open>ctx.stroke()\<close> with the path, stroke style and line width of
  that moment, \<^verbatim>\<open>ctx.strokeRect(x, y, w, h)\<close> likewise, and \<^verbatim>\<open>ctx.clearRect(x, y, w, h)\<close>.
\<close>

datatype gfx =
    Stroke "pathcmd list" string real
  | StrokeRect real real real real string real
  | ClearRect real real real real

type_synonym bitmap = "gfx list"

text \<open>
  \<^verbatim>\<open>ctx.clearRect(0, 0, canvas.width, canvas.height)\<close> covers the whole canvas and leaves
  it blank. \<^verbatim>\<open>ctx.drawImage(img, 0, 0)\<close> paints the image over the bitmap; the program
  calls it only right after that full clear, on the blank bitmap.
\<close>

definition clearAll :: "bitmap \<Rightarrow> bitmap" where
  "clearAll bm = []"

definition drawImage :: "bitmap \<Rightarrow> bitmap \<Rightarrow> bitmap" where
  "drawImage img bm = bm @ img"

text \<open>
  The strings held in \<^verbatim>\<open>layers[i].data\<close>, \<^verbatim>\<open>history\<close> and \<^verbatim>\<open>redoStack\<close> are
  either the empty string or a value of \<^verbatim>\<open>canvas.toDataURL()\<close>. The PNG encoding is
  lossless, so a data URL is modelled by the bitmap it encodes.
\<close>

datatype dataurl =
    EmptyString
  | DataURL bitmap

definition toDataURL :: "bitmap \<Rightarrow> dataurl" where
  "toDataURL bm = DataURL bm"

text \<open>
  Assigning \<^verbatim>\<open>img.src\<close> starts a load. For a data URL the \<^verbatim>\<open>load\<close> event fires
  later with the decoded picture. For the empty string the HTML standard ("update the image
  data") puts the image in the broken state and fires \<^verbatim>\<open>error\<close>, never \<^verbatim>\<open>load\<close>:
  the \<^verbatim>\<open>onload\<close> handler of such an image is never called.
\<close>

fun imageLoad :: "dataurl \<Rightarrow> bitmap option" where
  "imageLoad EmptyString = None"
| "imageLoad (DataURL bm) = Some bm"

record ctx2d =
  strokeStyle :: string
  lineWidth :: real
  lineCap :: string
  path :: "pathcmd list"

text \<open>The context state after \<^verbatim>\<open>canvas.width = ...\<close>, which resets it.\<close>

definition defaultCtx :: ctx2d where
  "defaultCtx = \<lparr>strokeStyle = ''#000000'', lineWidth = 1, lineCap = ''butt'', path = []\<rparr>"

subsection \<open>The component state\<close>

record layer =
  id' :: nat
  name :: string
  data :: dataurl

text \<open>
  An image created by \<^verbatim>\<open>new Image()\<close> whose \<^verbatim>\<open>load\<close> event is due, with the variables
  its \<^verbatim>\<open>onload\<close> closure reads: the one of \<^verbatim>\<open>loadLayer\<close> reads only the refs, the ones
  of \<^verbatim>\<open>undo\<close> and \<^verbatim>\<open>redo\<close> read \<^verbatim>\<open>layers\<close> and \<^verbatim>\<open>activeLayer\<close> of the render in
  which the handler ran.
\<close>

datatype closure =
    LoadLayerOnload
  | UndoOnload "layer list" int
  | RedoOnload "layer list" int

record image =
  src :: dataurl
  onload :: closure

datatype pevent =
    MouseEvent real real
  | TouchEvent "point list" "point list"

record app =
  isDrawing :: bool
  tool :: string
  color :: string
  brushSize :: real
  layers :: "layer list"
  activeLayer :: int
  history :: "dataurl list"
  redoStack :: "dataurl list"
  activeButton :: "string option"
  startPos :: "point option"
  canvasRef :: bool
  ctxRef :: bool
  canvas :: bitmap
  ctx :: ctx2d
  rect :: point
  pending :: "image list"

text \<open>
  \<open>canvasRef\<close> and \<open>ctxRef\<close> say that the ref is not null; \<open>canvas\<close> and \<open>ctx\<close> are
  the bitmap and the context of the canvas element, \<open>rect\<close> the left and top of its
  bounding client rectangle.
\<close>

definition colors :: "string list" where
  "colors = [''#000000'', ''#FF6363'', ''#FFA600'', ''#00876C'', ''#3366FF'', ''#CBAACB'']"

definition tools :: "string list" where
  "tools = [''brush'', ''rectangle'', ''circle'', ''eraser'']"

definition maxBrushSize :: nat where
  "maxBrushSize = 30"

text \<open>A handler that throws leaves the state it had reached; both are returned.\<close>

datatype error = TypeError

type_synonym 'a result = "(error \<times> 'a) + 'a"

fun state_of :: "'a result \<Rightarrow> 'a" where
  "state_of (Inl (e, s)) = s"
| "state_of (Inr s) = s"

text \<open>\<^verbatim>\<open>layers[activeLayer]\<close>: \<^verbatim>\<open>undefined\<close> outside the array.\<close>

definition layer_at :: "layer list \<Rightarrow> int \<Rightarrow> layer option" where
  "layer_at ls i = (if 0 \<le> i \<and> i < int (length ls) then Some (ls ! nat i) else None)"

text \<open>
  \<^verbatim>\<open>const newLayers = [...layers]; newLayers[activeLayer].data = d;\<close> The assignment
  throws a TypeError when \<^verbatim>\<open>newLayers[activeLayer]\<close> is \<^verbatim>\<open>undefined\<close>.
\<close>

definition set_data :: "layer list \<Rightarrow> int \<Rightarrow> dataurl \<Rightarrow> layer list option" where
  "set_data ls i d =
     (case layer_at ls i of
        None \<Rightarrow> None
      | Some l \<Rightarrow> Some (ls[nat i := l\<lparr>data := d\<rparr>]))"

subsection \<open>Decimal numerals in layer names\<close>

definition digit :: "nat \<Rightarrow> char" where
  "digit d = ''0123456789'' ! d"

fun string_of_nat :: "nat \<Rightarrow> string" where
  "string_of_nat n =
     (if n < 10 then [digit n] else string_of_nat (n div 10) @ [digit (n mod 10)])"

declare string_of_nat.simps [simp del]

subsection \<open>Pointer positions\<close>

text \<open>
  \<^verbatim>\<open>getEventPos\<close> takes the first entry of \<^verbatim>\<open>touches\<close>, else the first entry of
  \<^verbatim>\<open>changedTouches\<close>, else \<^verbatim>\<open>clientX\<close> and \<^verbatim>\<open>clientY\<close> of a mouse event; with
  none of them (or no event) it falls back to \<^verbatim>\<open>startPos\<close>, else to the origin.
\<close>

fun clientPos :: "pevent option \<Rightarrow> point option" where
  "clientPos (Some (TouchEvent (t # ts) cs)) = Some t"
| "clientPos (Some (TouchEvent [] (c # cs))) = Some c"
| "clientPos (Some (MouseEvent clientX clientY)) = Some (clientX, clientY)"
| "clientPos (Some (TouchEvent [] [])) = None"
| "clientPos None = None"

definition getEventPos :: "app \<Rightarrow> pevent option \<Rightarrow> point" where
  "getEventPos s e =
     (if \<not> canvasRef s then (0, 0)
      else case clientPos e of
          Some (clientX, clientY) \<Rightarrow> (clientX - fst (rect s), clientY - snd (rect s))
        | None \<Rightarrow> (case startPos s of Some p \<Rightarrow> p | None \<Rightarrow> (0, 0)))"

subsection \<open>Gestures\<close>

text \<open>
  \<^verbatim>\<open>ctx.strokeStyle = color; ctx.lineWidth = brushSize;\<close> The canvas ignores a line
  width that is not positive.
\<close>

definition setStyle :: "string \<Rightarrow> real \<Rightarrow> ctx2d \<Rightarrow> ctx2d" where
  "setStyle c w cx =
     (if 0 < w then cx\<lparr>strokeStyle := c, lineWidth := w\<rparr> else cx\<lparr>strokeStyle := c\<rparr>)"

definition startDrawing :: "pevent \<Rightarrow> app \<Rightarrow> app" where
  "startDrawing e s =
     (case getEventPos s (Some e) of (offsetX, offsetY) \<Rightarrow>
        if \<not> ctxRef s then s
        else
          let cx = setStyle (color s) (brushSize s) (ctx s);
              cx' = (if tool s = ''brush'' then cx\<lparr>path := [MoveTo offsetX offsetY]\<rparr> else cx)
          in s\<lparr>ctx := cx', startPos := Some (offsetX, offsetY), isDrawing := True\<rparr>)"

definition draw :: "pevent \<Rightarrow> app \<Rightarrow> app" where
  "draw e s =
     (if \<not> isDrawing s \<or> startPos s = None then s
      else case getEventPos s (Some e) of (offsetX, offsetY) \<Rightarrow>
        if \<not> ctxRef s then s
        else
          let cx = setStyle (color s) (brushSize s) (ctx s) in
          if tool s = ''brush'' then
            let p = path cx @ [LineTo offsetX offsetY]
            in s\<lparr>ctx := cx\<lparr>path := p\<rparr>,
                 canvas := canvas s @ [Stroke p (strokeStyle cx) (lineWidth cx)]\<rparr>
          else if tool s = ''eraser'' then
            s\<lparr>ctx := cx,
              canvas := canvas s @
                [ClearRect (offsetX - brushSize s / 2) (offsetY - brushSize s / 2)
                   (brushSize s) (brushSize s)]\<rparr>
          else s\<lparr>ctx := cx\<rparr>)"

text \<open>
  The shape block of \<^verbatim>\<open>endDrawing\<close> (tool rectangle or circle): the rectangle from the
  anchor \<open>(x, y)\<close> to the release point, or the circle around the anchor through it.
\<close>

definition strokeShape :: "point \<Rightarrow> point \<Rightarrow> app \<Rightarrow> app" where
  "strokeShape a b s =
     (case a of (x, y) \<Rightarrow> case b of (offsetX, offsetY) \<Rightarrow>
        if tool s = ''rectangle'' \<or> tool s = ''circle'' then
          let cx = (setStyle (color s) (brushSize s) (ctx s))\<lparr>path := []\<rparr> in
          if tool s = ''rectangle'' then
            s\<lparr>ctx := cx,
              canvas := canvas s @
                [StrokeRect x y (offsetX - x) (offsetY - y) (strokeStyle cx) (lineWidth cx)]\<rparr>
          else
            let radius = sqrt ((offsetX - x) * (offsetX - x) + (offsetY - y) * (offsetY - y));
                p = [Arc x y radius]
            in s\<lparr>ctx := cx\<lparr>path := p\<rparr>,
                 canvas := canvas s @ [Stroke p (strokeStyle cx) (lineWidth cx)]\<rparr>
        else s)"

definition endDrawing :: "pevent option \<Rightarrow> app \<Rightarrow> app result" where
  "endDrawing e s =
     (if \<not> ctxRef s \<or> \<not> canvasRef s then Inr s
      else if \<not> isDrawing s then Inr s
      else case startPos s of
          None \<Rightarrow> Inr s
        | Some a \<Rightarrow>
            let b = (case e of Some ev \<Rightarrow> getEventPos s (Some ev) | None \<Rightarrow> a);
                s1 = strokeShape a b s
            in (case set_data (layers s) (activeLayer s) (toDataURL (canvas s1)) of
                  None \<Rightarrow> Inl (TypeError, s1)
                | Some newLayers \<Rightarrow>
                    Inr (s1\<lparr>layers := newLayers,
                            history := history s @ [toDataURL (canvas s1)],
                            redoStack := [],
                            isDrawing := False,
                            startPos := None\<rparr>)))"

subsection \<open>Configuration and layers\<close>

definition handleToolChange :: "string \<Rightarrow> app \<Rightarrow> app" where
  "handleToolChange t s = s\<lparr>tool := t\<rparr>"

definition handleColorChange :: "string \<Rightarrow> app \<Rightarrow> app" where
  "handleColorChange c s = s\<lparr>color := c\<rparr>"

definition handleBrushSizeChange :: "real \<Rightarrow> app \<Rightarrow> app" where
  "handleBrushSizeChange size' s = s\<lparr>brushSize := size'\<rparr>"

definition addLayer :: "app \<Rightarrow> app" where
  "addLayer s =
     (let newId = length (layers s) + 1
      in s\<lparr>layers := layers s @
             [\<lparr>id' = newId, name = ''Layer '' @ string_of_nat newId, data = EmptyString\<rparr>]\<rparr>)"

definition selectLayer :: "int \<Rightarrow> app \<Rightarrow> app" where
  "selectLayer index s = s\<lparr>activeLayer := index\<rparr>"

definition loadLayer :: "app \<Rightarrow> app result" where
  "loadLayer s =
     (if \<not> canvasRef s \<or> \<not> ctxRef s then Inr s
      else case layer_at (layers s) (activeLayer s) of
          None \<Rightarrow> Inl (TypeError, s)
        | Some l \<Rightarrow> Inr (s\<lparr>pending := pending s @ [\<lparr>src = data l, onload = LoadLayerOnload\<rparr>]\<rparr>))"

text \<open>
  The effect with dependency \<^verbatim>\<open>[activeLayer]\<close>: assigning \<^verbatim>\<open>canvas.width\<close> blanks the
  bitmap and resets the context; \<^verbatim>\<open>getContext("2d")\<close> is taken to succeed. The effect with
  dependencies \<^verbatim>\<open>[color, brushSize]\<close> follows.
\<close>

definition layerEffect :: "app \<Rightarrow> app result" where
  "layerEffect s =
     (if canvasRef s
      then loadLayer (s\<lparr>canvas := [], ctx := defaultCtx\<lparr>lineCap := ''round''\<rparr>, ctxRef := True\<rparr>)
      else Inr s)"

definition styleEffect :: "app \<Rightarrow> app" where
  "styleEffect s =
     (if ctxRef s then s\<lparr>ctx := setStyle (color s) (brushSize s) (ctx s)\<rparr> else s)"

subsection \<open>History\<close>

definition undo :: "app \<Rightarrow> app result" where
  "undo s =
     (if length (history s) = 0 then Inr s
      else if \<not> canvasRef s \<or> \<not> ctxRef s then Inr s
      else
        let newHistory = take (length (history s) - 1) (history s);
            s1 = s\<lparr>history := newHistory\<rparr>
        in case layer_at (layers s) (activeLayer s) of
            None \<Rightarrow> Inl (TypeError, s1)
          | Some l \<Rightarrow>
              Inr (s1\<lparr>redoStack := data l # redoStack s,
                      pending := pending s @
                        [\<lparr>src = (if newHistory = [] then EmptyString else last newHistory),
                          onload = UndoOnload (layers s) (activeLayer s)\<rparr>]\<rparr>))"

definition redo :: "app \<Rightarrow> app result" where
  "redo s =
     (if length (redoStack s) = 0 then Inr s
      else if \<not> canvasRef s \<or> \<not> ctxRef s then Inr s
      else
        let next = hd (redoStack s);
            newRedoStack = drop 1 (redoStack s)
        in Inr (s\<lparr>redoStack := newRedoStack,
                  history := history s @ [next],
                  pending := pending s @
                    [\<lparr>src = next, onload = RedoOnload (layers s) (activeLayer s)\<rparr>]\<rparr>))"

definition clearCanvas :: "app \<Rightarrow> app result" where
  "clearCanvas s =
     (if \<not> canvasRef s \<or> \<not> ctxRef s then Inr s
      else
        let s1 = s\<lparr>canvas := clearAll (canvas s)\<rparr>
        in case set_data (layers s) (activeLayer s) EmptyString of
            None \<Rightarrow> Inl (TypeError, s1)
          | Some newLayers \<Rightarrow> Inr (s1\<lparr>layers := newLayers\<rparr>))"

subsection \<open>Image loads\<close>

text \<open>
  The three \<^verbatim>\<open>img.onload\<close> handlers, run with the loaded picture \<open>img\<close> and
  \<^verbatim>\<open>img.src\<close>. The ones of \<^verbatim>\<open>undo\<close> and \<^verbatim>\<open>redo\<close> have the same body.
\<close>

definition loadLayer_onload :: "bitmap \<Rightarrow> app \<Rightarrow> app" where
  "loadLayer_onload img s = s\<lparr>canvas := drawImage img (clearAll (canvas s))\<rparr>"

definition undo_onload :: "layer list \<Rightarrow> int \<Rightarrow> dataurl \<Rightarrow> bitmap \<Rightarrow> app \<Rightarrow> app result" where
  "undo_onload ls a u img s =
     (let s1 = s\<lparr>canvas := drawImage img (clearAll (canvas s))\<rparr>
      in case set_data ls a u of
          None \<Rightarrow> Inl (TypeError, s1)
        | Some newLayers \<Rightarrow> Inr (s1\<lparr>layers := newLayers\<rparr>))"

definition redo_onload :: "layer list \<Rightarrow> int \<Rightarrow> dataurl \<Rightarrow> bitmap \<Rightarrow> app \<Rightarrow> app result" where
  "redo_onload ls a u img s =
     (let s1 = s\<lparr>canvas := drawImage img (clearAll (canvas s))\<rparr>
      in case set_data ls a u of
          None \<Rightarrow> Inl (TypeError, s1)
        | Some newLayers \<Rightarrow> Inr (s1\<lparr>layers := newLayers\<rparr>))"

fun fire :: "closure \<Rightarrow> dataurl \<Rightarrow> bitmap \<Rightarrow> app \<Rightarrow> app result" where
  "fire LoadLayerOnload u img s = Inr (loadLayer_onload img s)"
| "fire (UndoOnload ls a) u img s = undo_onload ls a u img s"
| "fire (RedoOnload ls a) u img s = redo_onload ls a u img s"

text \<open>
  The load of one image comes to its end: its handler runs if the source loads, and
  nothing happens if it does not.
\<close>

definition deliver :: "image \<Rightarrow> app \<Rightarrow> app result" where
  "deliver i s =
     (case imageLoad (src i) of
        None \<Rightarrow> Inr s
      | Some img \<Rightarrow> fire (onload i) (src i) img s)"

text \<open>All loads that are due come to their end, in the order they were started.\<close>

definition settle :: "app \<Rightarrow> app" where
  "settle s = foldl (\<lambda>t i. state_of (deliver i t)) (s\<lparr>pending := []\<rparr>) (pending s)"

subsection \<open>The user interface\<close>

definition handleButtonClick :: "string \<Rightarrow> app \<Rightarrow> app result" where
  "handleButtonClick buttonName s =
     (let s1 = s\<lparr>activeButton := Some buttonName\<rparr>
      in if buttonName = ''undo'' then undo s1
         else if buttonName = ''redo'' then redo s1
         else if buttonName = ''clear'' then clearCanvas s1
         else Inr (handleToolChange buttonName s1))"

text \<open>
  What the rendered page lets the user do: the pointer handlers of the canvas, the tool
  and action buttons, the colour swatches, the size slider, the add-layer button and one
  button per existing layer.
\<close>

datatype command =
    PointerDown pevent
  | PointerMove pevent
  | PointerUp pevent
  | ButtonClick string
  | ColorClick string
  | BrushSizeInput nat
  | AddLayerClick
  | LayerClick nat

fun offered :: "app \<Rightarrow> command \<Rightarrow> bool" where
  "offered s (ButtonClick b) = (b \<in> set (tools @ [''undo'', ''redo'', ''clear'']))"
| "offered s (ColorClick c) = (c \<in> set colors)"
| "offered s (BrushSizeInput n) = (1 \<le> n \<and> n \<le> maxBrushSize)"
| "offered s (LayerClick i) = (i < length (layers s))"
| "offered s c = True"

text \<open>
  A handler and the effects of the render that follows it. An effect runs only when one
  of its dependencies has changed.
\<close>

fun handle :: "command \<Rightarrow> app \<Rightarrow> app result" where
  "handle (PointerDown e) s = Inr (startDrawing e s)"
| "handle (PointerMove e) s = Inr (draw e s)"
| "handle (PointerUp e) s = endDrawing (Some e) s"
| "handle (ButtonClick b) s = handleButtonClick b s"
| "handle (ColorClick c) s =
     (let s1 = handleColorChange c s
      in Inr (if color s1 = color s then s1 else styleEffect s1))"
| "handle (BrushSizeInput n) s =
     (let s1 = handleBrushSizeChange (real n) s
      in Inr (if brushSize s1 = brushSize s then s1 else styleEffect s1))"
| "handle AddLayerClick s = Inr (addLayer s)"
| "handle (LayerClick i) s =
     (let s1 = selectLayer (int i) s
      in if activeLayer s1 = activeLayer s then Inr s1 else layerEffect s1)"

text \<open>One command, with every image load it started brought to its end.\<close>

definition exec :: "command \<Rightarrow> app \<Rightarrow> app" where
  "exec c s = settle (state_of (handle c s))"

text \<open>The state of the first render, and the page once mounted at \<open>r\<close>.\<close>

definition initial :: app where
  "initial =
     \<lparr>isDrawing = False, tool = ''brush'', color = ''#000000'', brushSize = 5,
      layers = [\<lparr>id' = 1, name = ''Layer 1'', data = EmptyString\<rparr>],
      activeLayer = 0, history = [], redoStack = [], activeButton = None,
      startPos = None, canvasRef = False, ctxRef = False, canvas = [],
      ctx = defaultCtx, rect = (0, 0), pending = []\<rparr>"

definition mount :: "point \<Rightarrow> app" where
  "mount r =
     settle (styleEffect (state_of (layerEffect (initial\<lparr>canvasRef := True, rect := r\<rparr>))))"

fun run :: "command list \<Rightarrow> app \<Rightarrow> app" where
  "run [] s = s"
| "run (c # cs) s = run cs (exec c s)"

text \<open>
  The page offers every command of the list in the state \<open>run\<close> gives it to. Such a run
  is one in which every image load ends before the next command; the page also lets a
  command in before a load has ended, and those runs are not of this form.
\<close>

fun page_run :: "command list \<Rightarrow> app \<Rightarrow> bool" where
  "page_run [] s = True"
| "page_run (c # cs) s = (offered s c \<and> page_run cs (exec c s))"

subsection \<open>What a bitmap shows\<close>

text \<open>
  The colour of a point of the plane after the drawing calls of a bitmap, \<open>None\<close> where
  it is transparent. \<^verbatim>\<open>clearRect(x, y, w, h)\<close> makes the rectangle with the corners
  \<open>(x, y)\<close> and \<open>(x + w, y + h)\<close> transparent and does nothing when \<open>w\<close> or \<open>h\<close> is
  zero. Which points a stroke covers is left to the rasteriser \<open>ink\<close>.
\<close>

type_synonym ink = "gfx \<Rightarrow> point \<Rightarrow> bool"

definition in_rect :: "real \<Rightarrow> real \<Rightarrow> real \<Rightarrow> real \<Rightarrow> point \<Rightarrow> bool" where
  "in_rect x y w h p =
     (w \<noteq> 0 \<and> h \<noteq> 0 \<and>
      min x (x + w) \<le> fst p \<and> fst p \<le> max x (x + w) \<and>
      min y (y + h) \<le> snd p \<and> snd p \<le> max y (y + h))"

fun paint :: "ink \<Rightarrow> gfx \<Rightarrow> (point \<Rightarrow> string option) \<Rightarrow> point \<Rightarrow> string option" where
  "paint ink (ClearRect x y w h) bg p = (if in_rect x y w h p then None else bg p)"
| "paint ink (Stroke pa c lw) bg p = (if ink (Stroke pa c lw) p then Some c else bg p)"
| "paint ink (StrokeRect x y w h c lw) bg p =
     (if ink (StrokeRect x y w h c lw) p then Some c else bg p)"

definition pixel :: "ink \<Rightarrow> bitmap \<Rightarrow> point \<Rightarrow> string option" where
  "pixel ink bm = foldl (\<lambda>bg g. paint ink g bg) (\<lambda>p. None) bm"

subsection \<open>Properties of the layer list\<close>

text \<open>The layer at position \<open>i\<close> has id \<open>i + 1\<close> and the name "Layer " with that number.\<close>

definition layers_numbered :: "layer list \<Rightarrow> bool" where
  "layers_numbered ls =
     (\<forall>i < length ls. id' (ls ! i) = i + 1 \<and> name (ls ! i) = ''Layer '' @ string_of_nat (i + 1))"

text \<open>The active index references an existing layer.\<close>

definition active_exists :: "app \<Rightarrow> bool" where
  "active_exists s = (0 \<le> activeLayer s \<and> activeLayer s < int (length (layers s)))"

subsection \<open>Sample gestures\<close>

definition stroke1 :: "command list" where
  "stroke1 =
     [PointerDown (MouseEvent 10 10), PointerMove (MouseEvent 50 10), PointerUp (MouseEvent 50 10)]"

definition stroke2 :: "command list" where
  "stroke2 =
     [PointerDown (MouseEvent 10 20), PointerMove (MouseEvent 50 20), PointerUp (MouseEvent 50 20)]"

definition line1 :: gfx where
  "line1 = Stroke [MoveTo 10 10, LineTo 50 10] ''#000000'' 5"

definition line2 :: gfx where
  "line2 = Stroke [MoveTo 10 20, LineTo 50 20] ''#000000'' 5"

text \<open>
  Sample states: the mounted page after the first stroke, after the second one, after
  one and two clicks on undo, and after a click on redo.
\<close>

definition drawn1 :: app where
  "drawn1 = run stroke1 (mount (0, 0))"

definition drawn2 :: app where
  "drawn2 = run stroke2 drawn1"

definition undone1 :: app where
  "undone1 = exec (ButtonClick ''undo'') drawn2"

definition undone2 :: app where
  "undone2 = exec (ButtonClick ''undo'') undone1"

definition redone1 :: app where
  "redone1 = exec (ButtonClick ''redo'') undone2"

text \<open>
  More sample states: a press after the first undo; a second, empty layer beside the first
  stroke; a press with the eraser on the first stroke; a press with the rectangle tool on
  the blank page.
\<close>

definition pressed :: app where
  "pressed = exec (PointerDown (MouseEvent 10 30)) undone1"

definition two_layers :: app where
  "two_layers = exec AddLayerClick drawn1"

definition erasing :: app where
  "erasing = exec (PointerDown (MouseEvent 30 10)) (exec (ButtonClick ''eraser'') drawn1)"

definition rect_drag :: app where
  "rect_drag = exec (PointerDown (MouseEvent 0 0)) (exec (ButtonClick ''rectangle'') (mount (0, 0)))"

text \<open>
  After the two strokes: a second layer is added, then chosen.
\<close>

definition layered :: app where
  "layered = exec AddLayerClick drawn2"

definition on_layer2 :: app where
  "on_layer2 = exec (LayerClick 1) layered"

text \<open>
  After the two strokes: a click on clear, then a press and release at one point.
\<close>

definition cleared :: app where
  "cleared = exec (ButtonClick ''clear'') drawn2"

definition clicked :: app where
  "clicked = run [PointerDown (MouseEvent 5 5), PointerUp (MouseEvent 5 5)] cleared"

text \<open>
  After the two strokes, with the image load of undo still due: the handler of a click on
  undo has run, then the one of the add-layer button, then the one of the button of the
  second layer with its effect. \<open>settle\<close> of such a state is the state once the loads
  have ended.
\<close>

definition undo_started :: app where
  "undo_started = state_of (handle (ButtonClick ''undo'') drawn2)"

definition added_early :: app where
  "added_early = state_of (handle AddLayerClick undo_started)"

definition selected_early :: app where
  "selected_early = state_of (handle (LayerClick 1) added_early)"

text \<open>
  A sample rasteriser: every stroke covers the band of width 5 around the segment of
  \<open>line1\<close>.
\<close>

definition band_ink :: ink where
  "band_ink g p = (10 \<le> fst p \<and> fst p \<le> 50 \<and> 15 / 2 \<le> snd p \<and> snd p \<le> 25 / 2)"

subsection \<open>Auxiliary notions\<close>

text \<open>The ids and names of the layers, in order.\<close>

definition ids_names :: "layer list \<Rightarrow> (nat \<times> string) list" where
  "ids_names ls = map (\<lambda>l. (id' l, name l)) ls"

text \<open>
  The page is mounted, no image load is due and the active index references a layer.
\<close>

definition ready :: "app \<Rightarrow> bool" where
  "ready s = (canvasRef s \<and> ctxRef s \<and> pending s = [] \<and> active_exists s)"

text \<open>
  The history is in step with the page: no entry is the empty string and, when there is
  one, the last entry is the picture of the active layer and the snapshot of the canvas.
\<close>

definition synced :: "app \<Rightarrow> bool" where
  "synced s =
     (ready s \<and> EmptyString \<notin> set (history s) \<and>
      (history s \<noteq> [] \<longrightarrow>
         data (layers s ! nat (activeLayer s)) = last (history s) \<and>
         last (history s) = DataURL (canvas s)))"

text \<open>
  The commands of a drawing session on one layer: pointer events and the choice of tool,
  colour and size. \<open>committed\<close> is what such a session keeps true from the mounted page on;
  between gestures it gives \<open>synced\<close>.
\<close>

fun drawing :: "command \<Rightarrow> bool" where
  "drawing (PointerDown e) = True"
| "drawing (PointerMove e) = True"
| "drawing (PointerUp e) = True"
| "drawing (ButtonClick b) = (b \<in> set tools)"
| "drawing (ColorClick c) = (c \<in> set colors)"
| "drawing (BrushSizeInput n) = (1 \<le> n \<and> n \<le> maxBrushSize)"
| "drawing AddLayerClick = False"
| "drawing (LayerClick i) = False"

definition committed :: "app \<Rightarrow> bool" where
  "committed s =
     (ready s \<and> EmptyString \<notin> set (history s) \<and> redoStack s = [] \<and>
      (isDrawing s \<longleftrightarrow> startPos s \<noteq> None) \<and>
      (history s \<noteq> [] \<longrightarrow> data (layers s ! nat (activeLayer s)) = last (history s)) \<and>
      (\<not> isDrawing s \<and> history s \<noteq> [] \<longrightarrow> last (history s) = DataURL (canvas s)))"

section \<open>Basic facts\<close>

lemmas mount_defs = mount_def initial_def layerEffect_def styleEffect_def loadLayer_def
  layer_at_def settle_def deliver_def setStyle_def defaultCtx_def

lemmas handler_defs = startDrawing_def draw_def endDrawing_def strokeShape_def
  handleButtonClick_def undo_def redo_def clearCanvas_def handleToolChange_def
  handleColorChange_def handleBrushSizeChange_def addLayer_def selectLayer_def
  layerEffect_def styleEffect_def loadLayer_def

lemmas onload_defs = deliver_def loadLayer_onload_def undo_onload_def redo_onload_def
  clearAll_def drawImage_def

lemmas exec_defs = exec_def settle_def deliver_def undo_onload_def redo_onload_def
  loadLayer_onload_def handleButtonClick_def undo_def redo_def clearCanvas_def endDrawing_def
  strokeShape_def draw_def startDrawing_def getEventPos_def setStyle_def set_data_def
  layer_at_def toDataURL_def clearAll_def drawImage_def layerEffect_def styleEffect_def
  loadLayer_def defaultCtx_def handleToolChange_def addLayer_def selectLayer_def
  handleColorChange_def handleBrushSizeChange_def Let_def

lemma settle_nil: "pending s = [] \<Longrightarrow> settle s = s"
  by (simp add: settle_def)

lemma settle_single: "pending s = [i] \<Longrightarrow> settle s = state_of (deliver i (s\<lparr>pending := []\<rparr>))"
  by (simp add: settle_def)

lemma list_update_data_same:
  "i < length ls \<Longrightarrow> data (ls ! i) = d \<Longrightarrow> ls[i := (ls ! i)\<lparr>data := d\<rparr>] = ls"
  by (simp add: list_update_same_conv)

lemma strokeShape_frame:
  "layers (strokeShape a b s) = layers s" "history (strokeShape a b s) = history s"
  "redoStack (strokeShape a b s) = redoStack s" "activeLayer (strokeShape a b s) = activeLayer s"
  "pending (strokeShape a b s) = pending s" "canvasRef (strokeShape a b s) = canvasRef s"
  "ctxRef (strokeShape a b s) = ctxRef s" "isDrawing (strokeShape a b s) = isDrawing s"
  "startPos (strokeShape a b s) = startPos s"
  by (simp_all add: strokeShape_def Let_def split: prod.splits)

lemma run_append: "run (cs @ ds) s = run ds (run cs s)"
  by (induction cs arbitrary: s) simp_all

lemma run_replicate_snoc: "run (replicate (Suc n) c) s = exec c (run (replicate n c) s)"
proof -
  have "replicate (Suc n) c = replicate n c @ [c]"
    by (simp add: replicate_append_same)
  then show ?thesis
    by (simp only: run_append run.simps)
qed

lemma pixel_snoc: "pixel ink (bm @ [g]) p = paint ink g (pixel ink bm) p"
  by (simp add: pixel_def)

subsection \<open>The sample states\<close>

lemma mount_origin:
  "mount (0, 0) =
     \<lparr>isDrawing = False, tool = ''brush'', color = ''#000000'', brushSize = 5,
      layers = [\<lparr>id' = 1, name = ''Layer 1'', data = EmptyString\<rparr>],
      activeLayer = 0, history = [], redoStack = [], activeButton = None,
      startPos = None, canvasRef = True, ctxRef = True, canvas = [],
      ctx = \<lparr>strokeStyle = ''#000000'', lineWidth = 5, lineCap = ''round'', path = []\<rparr>,
      rect = (0, 0), pending = []\<rparr>"
  by (simp add: mount_defs)

lemma drawn1_eval:
  "drawn1 =
     (mount (0, 0))\<lparr>layers := [\<lparr>id' = 1, name = ''Layer 1'', data = DataURL [line1]\<rparr>],
        history := [DataURL [line1]], canvas := [line1],
        ctx := \<lparr>strokeStyle = ''#000000'', lineWidth = 5, lineCap = ''round'',
                 path = [MoveTo 10 10, LineTo 50 10]\<rparr>\<rparr>"
  by (simp add: drawn1_def stroke1_def line1_def mount_origin exec_defs)

lemma drawn2_eval:
  "drawn2 =
     drawn1\<lparr>layers := [\<lparr>id' = 1, name = ''Layer 1'', data = DataURL [line1, line2]\<rparr>],
        history := [DataURL [line1], DataURL [line1, line2]], canvas := [line1, line2],
        ctx := \<lparr>strokeStyle = ''#000000'', lineWidth = 5, lineCap = ''round'',
                 path = [MoveTo 10 20, LineTo 50 20]\<rparr>\<rparr>"
  by (simp add: drawn2_def stroke2_def line2_def drawn1_eval mount_origin exec_defs)

lemma undone1_eval:
  "undone1 =
     drawn2\<lparr>layers := [\<lparr>id' = 1, name = ''Layer 1'', data = DataURL [line1]\<rparr>],
        history := [DataURL [line1]], redoStack := [DataURL [line1, line2]],
        canvas := [line1], activeButton := Some ''undo''\<rparr>"
  by (simp add: undone1_def drawn2_eval drawn1_eval mount_origin exec_defs)

lemma undone2_eval:
  "undone2 = undone1\<lparr>history := [], redoStack := [DataURL [line1], DataURL [line1, line2]]\<rparr>"
  by (simp add: undone2_def undone1_eval drawn2_eval drawn1_eval mount_origin exec_defs)

lemma redone1_eval:
  "redone1 = undone2\<lparr>history := [DataURL [line1]], redoStack := [DataURL [line1, line2]],
     activeButton := Some ''redo''\<rparr>"
  by (simp add: redone1_def undone2_eval undone1_eval drawn2_eval drawn1_eval mount_origin exec_defs)

lemmas sample_evals = redone1_eval undone2_eval undone1_eval drawn2_eval drawn1_eval mount_origin

lemma pressed_eval:
  "pressed = undone1\<lparr>isDrawing := True, startPos := Some (10, 30),
     ctx := \<lparr>strokeStyle = ''#000000'', lineWidth = 5, lineCap = ''round'', path = [MoveTo 10 30]\<rparr>\<rparr>"
  by (simp add: pressed_def sample_evals exec_defs)

lemma two_layers_eval:
  "two_layers = drawn1\<lparr>layers := [\<lparr>id' = 1, name = ''Layer 1'', data = DataURL [line1]\<rparr>,
     \<lparr>id' = 2, name = ''Layer 2'', data = EmptyString\<rparr>]\<rparr>"
  by (simp add: two_layers_def sample_evals exec_defs string_of_nat.simps digit_def)

lemma erasing_eval:
  "erasing = drawn1\<lparr>tool := ''eraser'', activeButton := Some ''eraser'', isDrawing := True,
     startPos := Some (30, 10)\<rparr>"
  by (simp add: erasing_def sample_evals exec_defs)

lemma rect_drag_eval:
  "rect_drag = (mount (0, 0))\<lparr>tool := ''rectangle'', activeButton := Some ''rectangle'',
     isDrawing := True, startPos := Some (0, 0)\<rparr>"
  by (simp add: rect_drag_def sample_evals exec_defs)

lemma layered_eval:
  "layered = drawn2\<lparr>layers := [\<lparr>id' = 1, name = ''Layer 1'', data = DataURL [line1, line2]\<rparr>,
     \<lparr>id' = 2, name = ''Layer 2'', data = EmptyString\<rparr>]\<rparr>"
  by (simp add: layered_def sample_evals exec_defs string_of_nat.simps digit_def)

lemma on_layer2_eval:
  "on_layer2 = layered\<lparr>activeLayer := 1, canvas := [],
     ctx := \<lparr>strokeStyle = ''#000000'', lineWidth = 1, lineCap = ''round'', path = []\<rparr>\<rparr>"
  by (simp add: on_layer2_def layered_eval sample_evals exec_defs)

lemma cleared_eval:
  "cleared = drawn2\<lparr>layers := [\<lparr>id' = 1, name = ''Layer 1'', data = EmptyString\<rparr>],
     canvas := [], activeButton := Some ''clear''\<rparr>"
  by (simp add: cleared_def sample_evals exec_defs)

lemma clicked_eval:
  "clicked = cleared\<lparr>layers := [\<lparr>id' = 1, name = ''Layer 1'', data = DataURL []\<rparr>],
     history := [DataURL [line1], DataURL [line1, line2], DataURL []],
     ctx := \<lparr>strokeStyle = ''#000000'', lineWidth = 5, lineCap = ''round'', path = [MoveTo 5 5]\<rparr>\<rparr>"
  by (simp add: clicked_def cleared_eval sample_evals exec_defs)

lemma undo_started_eval:
  "undo_started = drawn2\<lparr>activeButton := Some ''undo'', history := [DataURL [line1]],
     redoStack := [DataURL [line1, line2]],
     pending := [\<lparr>src = DataURL [line1],
       onload = UndoOnload [\<lparr>id' = 1, name = ''Layer 1'', data = DataURL [line1, line2]\<rparr>] 0\<rparr>]\<rparr>"
  by (simp add: undo_started_def sample_evals handleButtonClick_def undo_def layer_at_def Let_def)

lemma added_early_eval:
  "added_early = undo_started\<lparr>layers :=
     [\<lparr>id' = 1, name = ''Layer 1'', data = DataURL [line1, line2]\<rparr>,
      \<lparr>id' = 2, name = ''Layer 2'', data = EmptyString\<rparr>]\<rparr>"
  by (simp add: added_early_def undo_started_eval sample_evals addLayer_def Let_def
        string_of_nat.simps digit_def)

lemma selected_early_eval:
  "selected_early = added_early\<lparr>activeLayer := 1, canvas := [],
     ctx := \<lparr>strokeStyle = ''#000000'', lineWidth = 1, lineCap = ''round'', path = []\<rparr>,
     pending := [\<lparr>src = DataURL [line1],
         onload = UndoOnload [\<lparr>id' = 1, name = ''Layer 1'', data = DataURL [line1, line2]\<rparr>] 0\<rparr>,
       \<lparr>src = EmptyString, onload = LoadLayerOnload\<rparr>]\<rparr>"
  by (simp add: selected_early_def added_early_eval undo_started_eval sample_evals
        selectLayer_def layerEffect_def loadLayer_def layer_at_def defaultCtx_def Let_def)

lemmas late_evals = selected_early_eval added_early_eval undo_started_eval

lemma pixel_line1: "pixel band_ink [line1] (px, py) =
    (if 10 \<le> px \<and> px \<le> 50 \<and> 15 / 2 \<le> py \<and> py \<le> 25 / 2 then Some ''#000000'' else None)"
  by (simp add: pixel_def line1_def band_ink_def)

section \<open>Reachable states\<close>

text \<open>
  Setting the picture of a layer keeps ids, names, order and length; so do all handlers
  but \<open>addLayer\<close> and all \<^verbatim>\<open>onload\<close> callbacks.
\<close>

lemma ids_names_set_data: "set_data ls i d = Some ls' \<Longrightarrow> ids_names ls' = ids_names ls"
  by (auto simp: set_data_def layer_at_def ids_names_def map_update list_update_same_conv split: if_splits)

lemma ids_names_nth:
  "i < length ls \<Longrightarrow> ids_names ls ! i = (id' (ls ! i), name (ls ! i))"
  by (simp add: ids_names_def)

lemma length_ids_names: "length (ids_names ls) = length ls"
  by (simp add: ids_names_def)

lemma layers_numbered_cong:
  assumes "ids_names ls' = ids_names ls" and "layers_numbered ls"
  shows "layers_numbered ls'"
proof -
  have len: "length ls' = length ls"
    using assms(1) length_ids_names by metis
  show ?thesis
    unfolding layers_numbered_def
  proof (intro allI impI)
    fix i assume i: "i < length ls'"
    then have "(id' (ls' ! i), name (ls' ! i)) = (id' (ls ! i), name (ls ! i))"
      using assms(1) len ids_names_nth by metis
    moreover have "id' (ls ! i) = i + 1 \<and> name (ls ! i) = ''Layer '' @ string_of_nat (i + 1)"
      using assms(2) i len by (simp add: layers_numbered_def)
    ultimately show "id' (ls' ! i) = i + 1 \<and> name (ls' ! i) = ''Layer '' @ string_of_nat (i + 1)"
      by simp
  qed
qed

lemma layers_numbered_append:
  "layers_numbered ls \<Longrightarrow>
   layers_numbered (ls @ [\<lparr>id' = length ls + 1, name = ''Layer '' @ string_of_nat (length ls + 1), data = d\<rparr>])"
  by (auto simp: layers_numbered_def nth_append less_Suc_eq)

lemma pending_handle:
  "pending s = [] \<Longrightarrow> pending (state_of (handle c s)) = [] \<or>
     (\<exists>u k. pending (state_of (handle c s)) = [\<lparr>src = u, onload = k\<rparr>] \<and>
        (k = LoadLayerOnload \<or> k = UndoOnload (layers s) (activeLayer s) \<or> k = RedoOnload (layers s) (activeLayer s)))"
  apply (cases c)
  apply (auto simp: handler_defs Let_def split: option.splits prod.splits)
  done

lemma deliver_frame:
  "pending (state_of (deliver i t)) = pending t \<and>
   canvasRef (state_of (deliver i t)) = canvasRef t \<and>
   ctxRef (state_of (deliver i t)) = ctxRef t \<and>
   activeLayer (state_of (deliver i t)) = activeLayer t \<and>
   history (state_of (deliver i t)) = history t \<and>
   redoStack (state_of (deliver i t)) = redoStack t"
  by (cases "onload i") (auto simp: onload_defs Let_def split: option.splits)

lemma foldl_deliver_frame:
  "pending (foldl (\<lambda>t i. state_of (deliver i t)) s is) = pending s \<and>
   canvasRef (foldl (\<lambda>t i. state_of (deliver i t)) s is) = canvasRef s \<and>
   ctxRef (foldl (\<lambda>t i. state_of (deliver i t)) s is) = ctxRef s \<and>
   activeLayer (foldl (\<lambda>t i. state_of (deliver i t)) s is) = activeLayer s \<and>
   history (foldl (\<lambda>t i. state_of (deliver i t)) s is) = history s \<and>
   redoStack (foldl (\<lambda>t i. state_of (deliver i t)) s is) = redoStack s"
  by (induction "is" arbitrary: s) (simp_all add: deliver_frame)

lemma settle_frame:
  "pending (settle s) = [] \<and> canvasRef (settle s) = canvasRef s \<and> ctxRef (settle s) = ctxRef s \<and>
   activeLayer (settle s) = activeLayer s \<and> history (settle s) = history s \<and>
   redoStack (settle s) = redoStack s"
  by (simp add: settle_def foldl_deliver_frame)

lemma handle_ids_names:
  "c \<noteq> AddLayerClick \<Longrightarrow> ids_names (layers (state_of (handle c s))) = ids_names (layers s)"
  by (cases c)
     (auto simp: handler_defs Let_def ids_names_set_data split: option.splits prod.splits)

lemma deliver_ids_names:
  assumes "ids_names (layers t) = ids_names ls"
    and "k = LoadLayerOnload \<or> k = UndoOnload ls a \<or> k = RedoOnload ls a"
  shows "ids_names (layers (state_of (deliver \<lparr>src = u, onload = k\<rparr> t))) = ids_names ls"
  using assms
  by (auto simp: onload_defs Let_def ids_names_set_data split: option.splits)

lemma exec_ids_names:
  assumes "pending s = []" and "c \<noteq> AddLayerClick"
  shows "ids_names (layers (exec c s)) = ids_names (layers s)"
proof -
  let ?t = "state_of (handle c s)"
  have h: "ids_names (layers ?t) = ids_names (layers s)"
    using assms(2) by (rule handle_ids_names)
  from pending_handle [OF assms(1), of c] show ?thesis
  proof
    assume "pending ?t = []"
    then show ?thesis using h by (simp add: exec_def settle_nil)
  next
    assume "\<exists>u k. pending ?t = [\<lparr>src = u, onload = k\<rparr>] \<and>
        (k = LoadLayerOnload \<or> k = UndoOnload (layers s) (activeLayer s) \<or>
         k = RedoOnload (layers s) (activeLayer s))"
    then obtain u k where p: "pending ?t = [\<lparr>src = u, onload = k\<rparr>]"
      and k: "k = LoadLayerOnload \<or> k = UndoOnload (layers s) (activeLayer s) \<or>
              k = RedoOnload (layers s) (activeLayer s)"
      by blast
    have "ids_names (layers (?t\<lparr>pending := []\<rparr>)) = ids_names (layers s)"
      using h by simp
    from deliver_ids_names [OF this k] show ?thesis
      by (simp add: exec_def settle_single [OF p])
  qed
qed

lemma exec_AddLayerClick:
  "pending s = [] \<Longrightarrow>
   exec AddLayerClick s =
     s\<lparr>layers := layers s @
        [\<lparr>id' = length (layers s) + 1,
          name = ''Layer '' @ string_of_nat (length (layers s) + 1), data = EmptyString\<rparr>]\<rparr>"
  by (simp add: exec_def addLayer_def settle_nil Let_def)

lemma length_layers_exec:
  assumes "pending s = []"
  shows "length (layers (exec c s)) = (if c = AddLayerClick then length (layers s) + 1 else length (layers s))"
proof (cases "c = AddLayerClick")
  case True
  then show ?thesis using assms by (simp add: exec_AddLayerClick)
next
  case False
  from exec_ids_names [OF assms False] have "length (ids_names (layers (exec c s))) = length (ids_names (layers s))"
    by simp
  then show ?thesis using False by (simp add: length_ids_names)
qed

lemma handle_frame:
  "canvasRef s \<Longrightarrow> canvasRef (state_of (handle c s))"
  "canvasRef s \<Longrightarrow> ctxRef s \<Longrightarrow> ctxRef (state_of (handle c s))"
  "activeLayer (state_of (handle c s)) = (case c of LayerClick i \<Rightarrow> int i | _ \<Rightarrow> activeLayer s)"
  by (cases c; auto simp: handler_defs Let_def split: option.splits prod.splits)+

lemma ready_exec:
  assumes "ready s" and "offered s c"
  shows "ready (exec c s)"
proof -
  have p: "pending s = []" using assms(1) by (simp add: ready_def)
  have a: "activeLayer (exec c s) = (case c of LayerClick i \<Rightarrow> int i | _ \<Rightarrow> activeLayer s)"
    by (simp add: exec_def settle_frame handle_frame)
  have "active_exists (exec c s)"
    using assms a length_layers_exec [OF p, of c]
    by (cases c) (auto simp: ready_def active_exists_def)
  then show ?thesis
    using assms(1) by (simp add: ready_def exec_def settle_frame handle_frame)
qed

lemma layers_numbered_exec:
  assumes "pending s = []" and "layers_numbered (layers s)"
  shows "layers_numbered (layers (exec c s))"
proof (cases "c = AddLayerClick")
  case True
  from layers_numbered_append [OF assms(2), of EmptyString] show ?thesis
    unfolding True exec_AddLayerClick [OF assms(1)] by simp
next
  case False
  from exec_ids_names [OF assms(1) False] assms(2) show ?thesis
    by (rule layers_numbered_cong)
qed

lemma ready_mount: "ready (mount r) \<and> layers_numbered (layers (mount r))"
  by (simp add: mount_defs ready_def active_exists_def layers_numbered_def string_of_nat.simps digit_def)

text \<open>
  In a run of commands the page offers, each with its image loads ended before the next,
  the page stays ready and the layers stay numbered.
\<close>

lemma page_run_ready:
  "ready s \<Longrightarrow> layers_numbered (layers s) \<Longrightarrow> page_run cs s \<Longrightarrow>
   ready (run cs s) \<and> layers_numbered (layers (run cs s))"
proof (induction cs arbitrary: s)
  case Nil
  then show ?case by simp
next
  case (Cons c cs)
  from Cons.prems have o: "offered s c" and p: "pending s = []"
    by (simp_all add: ready_def)
  have "ready (exec c s)"
    using Cons.prems(1) o by (rule ready_exec)
  moreover have "layers_numbered (layers (exec c s))"
    using p Cons.prems(2) by (rule layers_numbered_exec)
  ultimately show ?case
    using Cons.IH [of "exec c s"] Cons.prems(3) by simp
qed

lemma mounted_run_ready:
  "page_run cs (mount r) \<Longrightarrow>
   ready (run cs (mount r)) \<and> layers_numbered (layers (run cs (mount r)))"
  using ready_mount [of r] by (simp add: page_run_ready)

lemma page_run_append: "page_run (cs @ ds) s = (page_run cs s \<and> page_run ds (run cs s))"
  by (induction cs arbitrary: s) simp_all

text \<open>The brush size stays within the range of the slider.\<close>

lemma deliver_brushSize: "brushSize (state_of (deliver i t)) = brushSize t"
  by (cases "onload i") (auto simp: onload_defs Let_def split: option.splits)

lemma settle_brushSize: "brushSize (settle s) = brushSize s"
proof -
  have "brushSize (foldl (\<lambda>t i. state_of (deliver i t)) t is) = brushSize t" for t "is"
    by (induction "is" arbitrary: t) (simp_all add: deliver_brushSize)
  then show ?thesis by (simp add: settle_def)
qed

lemma handle_brushSize:
  "brushSize (state_of (handle c s)) = (case c of BrushSizeInput n \<Rightarrow> real n | _ \<Rightarrow> brushSize s)"
  by (cases c) (auto simp: handler_defs Let_def split: option.splits prod.splits)

lemma page_run_brushSize:
  "1 \<le> brushSize s \<and> brushSize s \<le> 30 \<Longrightarrow> page_run cs s \<Longrightarrow>
   1 \<le> brushSize (run cs s) \<and> brushSize (run cs s) \<le> 30"
proof (induction cs arbitrary: s)
  case Nil
  then show ?case by simp
next
  case (Cons c cs)
  from Cons.prems have "1 \<le> brushSize (exec c s) \<and> brushSize (exec c s) \<le> 30"
    by (cases c)
       (simp_all add: exec_def settle_brushSize handle_brushSize maxBrushSize_def del: handle.simps)
  with Cons.IH [of "exec c s"] Cons.prems(2) show ?case
    by simp
qed

lemma mounted_run_brushSize:
  "page_run cs (mount r) \<Longrightarrow>
   1 \<le> brushSize (run cs (mount r)) \<and> brushSize (run cs (mount r)) \<le> 30"
  by (rule page_run_brushSize) (simp_all add: mount_defs)

lemma map_id_names:
  "map id' ls = map fst (ids_names ls)" "map name ls = map snd (ids_names ls)"
  by (simp_all add: ids_names_def comp_def)

lemma layers_numbered_ids: "layers_numbered ls \<Longrightarrow> map id' ls = map Suc [0..<length ls]"
  by (rule nth_equalityI) (simp_all add: layers_numbered_def)

lemma layers_numbered_sorted:
  assumes "layers_numbered ls"
  shows "sorted_wrt (<) (map id' ls) \<and> distinct (map id' ls)"
proof -
  have "sorted_wrt (<) (map Suc [0..<length ls])"
    by (simp add: sorted_wrt_iff_nth_less)
  moreover have "distinct (map Suc [0..<length ls])"
    by (simp add: distinct_map)
  ultimately show ?thesis
    using layers_numbered_ids [OF assms] by simp
qed

lemma handle_returns:
  assumes "ready s" and "offered s c"
  shows "handle c s = Inr (state_of (handle c s))"
  using assms
  by (cases c)
     (auto simp: handler_defs ready_def active_exists_def set_data_def layer_at_def Let_def
           split: option.splits prod.splits)

lemma deliver_returns:
  assumes "active_exists s" and "i \<in> set (pending (state_of (handle c s)))" and "pending s = []"
  shows "deliver i t = Inr (state_of (deliver i t))"
proof -
  from pending_handle [OF assms(3), of c] assms(2)
  obtain u k where i: "i = \<lparr>src = u, onload = k\<rparr>"
    and k: "k = LoadLayerOnload \<or> k = UndoOnload (layers s) (activeLayer s) \<or>
            k = RedoOnload (layers s) (activeLayer s)"
    by auto
  from k assms(1) show ?thesis
    unfolding i
    by (auto simp: onload_defs active_exists_def set_data_def layer_at_def Let_def split: option.splits)
qed

section \<open>History\<close>

text \<open>
  C8. On an empty undo stack \<open>undo\<close> returns at once and leaves the whole state as it
  is: canvas, layers, both stacks and everything else; no image load is started. The same
  holds for \<open>redo\<close> on an empty redo stack.
\<close>

theorem undo_redo_on_empty_stack:
  "(history s = [] \<longrightarrow> undo s = Inr s) \<and> (redoStack s = [] \<longrightarrow> redo s = Inr s)"
  by (simp add: undo_def redo_def)

theorem undo_redo_on_empty_stack_witness:
  "history (mount (0, 0)) = [] \<and> undo (mount (0, 0)) = Inr (mount (0, 0)) \<and>
   redoStack (mount (0, 0)) = [] \<and> redo (mount (0, 0)) = Inr (mount (0, 0))"
  using undo_redo_on_empty_stack [of "mount (0, 0)"] by (simp add: mount_origin)

text \<open>
  C5. The release that ends a gesture, with whatever tool, returns normally and leaves the
  redo stack empty, so that \<open>redo\<close> right after it changes nothing at all. This holds
  in any state with a gesture in progress, whatever was undone before.
\<close>

theorem endDrawing_empties_redoStack:
  assumes "ctxRef s" and "canvasRef s" and "isDrawing s" and "startPos s = Some a"
    and "active_exists s"
  shows "endDrawing e s = Inr (state_of (endDrawing e s)) \<and>
         redoStack (state_of (endDrawing e s)) = [] \<and>
         redo (state_of (endDrawing e s)) = Inr (state_of (endDrawing e s))"
  using assms
  by (simp add: endDrawing_def set_data_def layer_at_def active_exists_def redo_def Let_def)

theorem endDrawing_empties_redoStack_witness:
  "ctxRef pressed \<and> canvasRef pressed \<and> isDrawing pressed \<and> startPos pressed = Some (10, 30) \<and>
   active_exists pressed \<and> redoStack pressed = [DataURL [line1, line2]] \<and>
   redoStack (state_of (endDrawing (Some (MouseEvent 50 30)) pressed)) = [] \<and>
   redo (state_of (endDrawing (Some (MouseEvent 50 30)) pressed)) =
     Inr (state_of (endDrawing (Some (MouseEvent 50 30)) pressed))"
proof -
  have h: "ctxRef pressed" "canvasRef pressed" "isDrawing pressed"
    "startPos pressed = Some (10, 30)" "active_exists pressed"
    "redoStack pressed = [DataURL [line1, line2]]"
    by (simp_all add: pressed_eval sample_evals active_exists_def)
  from endDrawing_empties_redoStack [OF h(1-5), of "Some (MouseEvent 50 30)"] h
  show ?thesis by simp
qed




subsection \<open>Undoing everything and redoing it\<close>

text \<open>
  One click on undo with at least two entries restores the entry below the top; with one
  entry it asks for the image with the empty source, and nothing is restored. One click
  on redo restores the front of the redo stack.
\<close>

lemma exec_undo_restores:
  assumes "ready s" and "history s = pre @ [DataURL bm, h]"
  shows "history (exec (ButtonClick ''undo'') s) = pre @ [DataURL bm] \<and>
         redoStack (exec (ButtonClick ''undo'') s) = data (layers s ! nat (activeLayer s)) # redoStack s \<and>
         canvas (exec (ButtonClick ''undo'') s) = bm \<and>
         layers (exec (ButtonClick ''undo'') s) =
           (layers s)[nat (activeLayer s) := (layers s ! nat (activeLayer s))\<lparr>data := DataURL bm\<rparr>] \<and>
         activeLayer (exec (ButtonClick ''undo'') s) = activeLayer s \<and>
         ready (exec (ButtonClick ''undo'') s)"
  using assms
  by (simp add: exec_def handleButtonClick_def undo_def layer_at_def ready_def active_exists_def
        Let_def settle_def deliver_def undo_onload_def set_data_def clearAll_def drawImage_def)

lemma exec_undo_last:
  assumes "ready s" and "history s = [h]"
  shows "history (exec (ButtonClick ''undo'') s) = [] \<and>
         redoStack (exec (ButtonClick ''undo'') s) = data (layers s ! nat (activeLayer s)) # redoStack s \<and>
         canvas (exec (ButtonClick ''undo'') s) = canvas s \<and>
         layers (exec (ButtonClick ''undo'') s) = layers s \<and>
         activeLayer (exec (ButtonClick ''undo'') s) = activeLayer s \<and>
         ready (exec (ButtonClick ''undo'') s)"
  using assms
  by (simp add: exec_def handleButtonClick_def undo_def layer_at_def ready_def active_exists_def
        Let_def settle_def deliver_def)

lemma exec_redo_restores:
  assumes "ready s" and "redoStack s = DataURL bm # rs"
  shows "history (exec (ButtonClick ''redo'') s) = history s @ [DataURL bm] \<and>
         redoStack (exec (ButtonClick ''redo'') s) = rs \<and>
         canvas (exec (ButtonClick ''redo'') s) = bm \<and>
         layers (exec (ButtonClick ''redo'') s) =
           (layers s)[nat (activeLayer s) := (layers s ! nat (activeLayer s))\<lparr>data := DataURL bm\<rparr>] \<and>
         activeLayer (exec (ButtonClick ''redo'') s) = activeLayer s \<and>
         ready (exec (ButtonClick ''redo'') s)"
  using assms
  by (simp add: exec_def handleButtonClick_def redo_def layer_at_def ready_def active_exists_def
        Let_def settle_def deliver_def redo_onload_def set_data_def clearAll_def drawImage_def)

lemma synced_undo_step:
  assumes "synced s" and "history s = hs @ [h]" and "hs \<noteq> []"
  shows "synced (exec (ButtonClick ''undo'') s) \<and>
         history (exec (ButtonClick ''undo'') s) = hs \<and>
         redoStack (exec (ButtonClick ''undo'') s) = h # redoStack s \<and>
         activeLayer (exec (ButtonClick ''undo'') s) = activeLayer s \<and>
         layers (exec (ButtonClick ''undo'') s) =
           (layers s)[nat (activeLayer s) := (layers s ! nat (activeLayer s))\<lparr>data := last hs\<rparr>]"
proof -
  from assms(1) have r: "ready s" and e: "EmptyString \<notin> set (history s)"
    and d: "data (layers s ! nat (activeLayer s)) = h"
    using assms(2) by (simp_all add: synced_def)
  from assms(3) obtain pre x where hs: "hs = pre @ [x]"
    by (cases hs rule: rev_cases) auto
  with e assms(2) obtain bm where x: "x = DataURL bm"
    by (cases x) auto
  from r have a: "nat (activeLayer s) < length (layers s)"
    by (simp add: ready_def active_exists_def nat_less_iff)
  from exec_undo_restores [OF r, of pre bm h] assms(2) hs x d e a show ?thesis
    by (simp add: synced_def)
qed

lemma undo_many:
  assumes "synced s" and "history s = pre @ xs" and "pre \<noteq> []"
  shows "synced (run (replicate (length xs) (ButtonClick ''undo'')) s) \<and>
         history (run (replicate (length xs) (ButtonClick ''undo'')) s) = pre \<and>
         redoStack (run (replicate (length xs) (ButtonClick ''undo'')) s) = xs @ redoStack s \<and>
         activeLayer (run (replicate (length xs) (ButtonClick ''undo'')) s) = activeLayer s \<and>
         layers (run (replicate (length xs) (ButtonClick ''undo'')) s) =
           (layers s)[nat (activeLayer s) := (layers s ! nat (activeLayer s))\<lparr>data := last pre\<rparr>]"
  using assms
proof (induction xs arbitrary: s rule: rev_induct)
  case Nil
  from Nil.prems have "nat (activeLayer s) < length (layers s)"
    and "data (layers s ! nat (activeLayer s)) = last pre"
    by (simp_all add: synced_def ready_def active_exists_def nat_less_iff)
  with Nil.prems show ?case
    by (simp add: list_update_data_same)
next
  case (snoc x xs)
  let ?s' = "exec (ButtonClick ''undo'') s"
  from snoc.prems have h: "history s = (pre @ xs) @ [x]" and ne: "pre @ xs \<noteq> []"
    by simp_all
  from synced_undo_step [OF snoc.prems(1) h ne]
  have s': "synced ?s'" "history ?s' = pre @ xs" "redoStack ?s' = x # redoStack s"
    "activeLayer ?s' = activeLayer s"
    "layers ?s' = (layers s)[nat (activeLayer s) :=
        (layers s ! nat (activeLayer s))\<lparr>data := last (pre @ xs)\<rparr>]"
    by simp_all
  from snoc.prems(1) have a: "nat (activeLayer s) < length (layers s)"
    by (simp add: synced_def ready_def active_exists_def nat_less_iff)
  from snoc.IH [OF s'(1) s'(2) snoc.prems(3)] s' a show ?case
    by simp
qed

lemma redo_many:
  assumes "ready t" and "redoStack t = xs @ rest" and "EmptyString \<notin> set xs"
  shows "ready (run (replicate (length xs) (ButtonClick ''redo'')) t) \<and>
         history (run (replicate (length xs) (ButtonClick ''redo'')) t) = history t @ xs \<and>
         redoStack (run (replicate (length xs) (ButtonClick ''redo'')) t) = rest \<and>
         activeLayer (run (replicate (length xs) (ButtonClick ''redo'')) t) = activeLayer t \<and>
         (xs \<noteq> [] \<longrightarrow>
            DataURL (canvas (run (replicate (length xs) (ButtonClick ''redo'')) t)) = last xs \<and>
            layers (run (replicate (length xs) (ButtonClick ''redo'')) t) =
              (layers t)[nat (activeLayer t) := (layers t ! nat (activeLayer t))\<lparr>data := last xs\<rparr>])"
  using assms
proof (induction xs arbitrary: t)
  case Nil
  then show ?case by simp
next
  case (Cons x xs)
  let ?t' = "exec (ButtonClick ''redo'') t"
  from Cons.prems(3) obtain bm where x: "x = DataURL bm"
    by (cases x) auto
  from Cons.prems(2) x have rs: "redoStack t = DataURL bm # (xs @ rest)"
    by simp
  from exec_redo_restores [OF Cons.prems(1) rs]
  have t': "ready ?t'" "history ?t' = history t @ [x]" "redoStack ?t' = xs @ rest"
    "activeLayer ?t' = activeLayer t" "canvas ?t' = bm"
    "layers ?t' = (layers t)[nat (activeLayer t) :=
        (layers t ! nat (activeLayer t))\<lparr>data := x\<rparr>]"
    by (simp_all add: x)
  from Cons.prems(1) have a: "nat (activeLayer t) < length (layers t)"
    by (simp add: ready_def active_exists_def nat_less_iff)
  from Cons.prems(3) have "EmptyString \<notin> set xs" by simp
  from Cons.IH [OF t'(1) t'(3) this] t' a x show ?case
    by (cases "xs = []") simp_all
qed

text \<open>
  From a state in step with its history of \<open>N\<close> entries, \<open>N\<close> clicks on undo empty the
  history and leave canvas and active layer with the first entry, the picture after the
  first gesture, not with the empty picture. \<open>N\<close> clicks on redo then bring back the
  history, the redo stack, the canvas and the layers.
\<close>

theorem undo_redo_round_trip:
  assumes "synced s" and "history s = h # hs"
  shows "history (run (replicate (length (h # hs)) (ButtonClick ''undo'')) s) = [] \<and>
         redoStack (run (replicate (length (h # hs)) (ButtonClick ''undo'')) s) = h # hs @ redoStack s \<and>
         DataURL (canvas (run (replicate (length (h # hs)) (ButtonClick ''undo'')) s)) = h \<and>
         data (layers (run (replicate (length (h # hs)) (ButtonClick ''undo'')) s) ! nat (activeLayer s)) = h \<and>
         history (run (replicate (length (h # hs)) (ButtonClick ''undo'') @
                       replicate (length (h # hs)) (ButtonClick ''redo'')) s) = h # hs \<and>
         redoStack (run (replicate (length (h # hs)) (ButtonClick ''undo'') @
                       replicate (length (h # hs)) (ButtonClick ''redo'')) s) = redoStack s \<and>
         canvas (run (replicate (length (h # hs)) (ButtonClick ''undo'') @
                       replicate (length (h # hs)) (ButtonClick ''redo'')) s) = canvas s \<and>
         layers (run (replicate (length (h # hs)) (ButtonClick ''undo'') @
                       replicate (length (h # hs)) (ButtonClick ''redo'')) s) = layers s"
proof -
  let ?undo = "ButtonClick ''undo''" and ?redo = "ButtonClick ''redo''"
  let ?u1 = "run (replicate (length hs) ?undo) s"
  let ?u = "run (replicate (length (h # hs)) ?undo) s"
  let ?r = "run (replicate (length (h # hs)) ?redo) ?u"
  from assms(1) have a: "nat (activeLayer s) < length (layers s)"
    and e: "EmptyString \<notin> set (h # hs)"
    and top: "data (layers s ! nat (activeLayer s)) = last (h # hs)" "last (h # hs) = DataURL (canvas s)"
    using assms(2) by (simp_all add: synced_def ready_def active_exists_def nat_less_iff)
  from undo_many [OF assms(1), of "[h]" hs] assms(2)
  have u1: "synced ?u1" "history ?u1 = [h]" "redoStack ?u1 = hs @ redoStack s"
    "activeLayer ?u1 = activeLayer s"
    "layers ?u1 = (layers s)[nat (activeLayer s) := (layers s ! nat (activeLayer s))\<lparr>data := h\<rparr>]"
    by simp_all
  from u1(1,2) have r1: "ready ?u1" and d1: "data (layers ?u1 ! nat (activeLayer ?u1)) = h"
    and c1: "DataURL (canvas ?u1) = h"
    by (simp_all add: synced_def)
  have u_eq: "?u = exec ?undo ?u1"
    by (simp add: run_replicate_snoc del: replicate.simps)
  from exec_undo_last [OF r1 u1(2)] d1 c1 u1
  have u: "ready ?u" "history ?u = []" "redoStack ?u = (h # hs) @ redoStack s"
    "activeLayer ?u = activeLayer s" "DataURL (canvas ?u) = h" "layers ?u = layers ?u1"
    unfolding u_eq by simp_all
  from redo_many [OF u(1) u(3) e] u
  have r: "history ?r = h # hs" "redoStack ?r = redoStack s"
    "DataURL (canvas ?r) = last (h # hs)"
    "layers ?r = (layers ?u)[nat (activeLayer s) := (layers ?u ! nat (activeLayer s))\<lparr>data := last (h # hs)\<rparr>]"
    by simp_all
  from r(4) u(6) u1(5) a top(1) have "layers ?r = layers s"
    by (simp add: list_update_data_same)
  moreover from r(3) top(2) have "canvas ?r = canvas s"
    by simp
  moreover from u(6) u1(5) a have "data (layers ?u ! nat (activeLayer s)) = h"
    by simp
  ultimately show ?thesis
    using u r by (simp add: run_append del: replicate.simps)
qed

text \<open>
  Every drawing session from the mounted page ends, between two gestures, in such a state.
\<close>

lemma committed_mount: "committed (mount r)"
  by (simp add: committed_def ready_def active_exists_def mount_defs)

lemma committed_PointerDown: "committed s \<Longrightarrow> committed (exec (PointerDown e) s)"
  by (simp add: exec_def settle_nil startDrawing_def committed_def ready_def active_exists_def
        Let_def split: prod.splits)

lemma committed_PointerMove: "committed s \<Longrightarrow> committed (exec (PointerMove e) s)"
  by (simp add: exec_def settle_nil draw_def committed_def ready_def active_exists_def
        Let_def split: prod.splits)

lemma committed_PointerUp:
  assumes "committed s"
  shows "committed (exec (PointerUp e) s)"
proof (cases "isDrawing s")
  case False
  with assms show ?thesis
    by (simp add: exec_def settle_nil endDrawing_def committed_def ready_def)
next
  case True
  with assms obtain a where sp: "startPos s = Some a"
    by (auto simp: committed_def)
  from assms have r: "canvasRef s" "ctxRef s" "pending s = []" "active_exists s"
    and n: "nat (activeLayer s) < length (layers s)"
    by (simp_all add: committed_def ready_def active_exists_def nat_less_iff)
  let ?s1 = "strokeShape a (getEventPos s (Some e)) s"
  have "endDrawing (Some e) s =
      Inr (?s1\<lparr>layers := (layers s)[nat (activeLayer s) :=
                      (layers s ! nat (activeLayer s))\<lparr>data := DataURL (canvas ?s1)\<rparr>],
               history := history s @ [DataURL (canvas ?s1)], redoStack := [],
               isDrawing := False, startPos := None\<rparr>)"
    using True sp r
    by (simp add: endDrawing_def set_data_def layer_at_def active_exists_def toDataURL_def Let_def)
  with assms r n show ?thesis
    by (simp add: exec_def settle_nil strokeShape_frame committed_def ready_def active_exists_def)
qed

lemma committed_config:
  assumes "committed s"
  shows "b \<in> set tools \<Longrightarrow> committed (exec (ButtonClick b) s)"
    and "committed (exec (ColorClick c) s)"
    and "committed (exec (BrushSizeInput n) s)"
  using assms
  by (auto simp: exec_def settle_nil handleButtonClick_def handleToolChange_def tools_def
        handleColorChange_def handleBrushSizeChange_def styleEffect_def
        committed_def ready_def active_exists_def Let_def)

lemma committed_exec:
  assumes "committed s" and "drawing c"
  shows "committed (exec c s)"
  using assms
  by (cases c)
     (simp_all add: committed_PointerDown committed_PointerMove committed_PointerUp committed_config)

lemma committed_run:
  "committed s \<Longrightarrow> \<forall>c \<in> set cs. drawing c \<Longrightarrow> committed (run cs s)"
  by (induction cs arbitrary: s) (simp_all add: committed_exec)

lemma committed_synced: "committed s \<Longrightarrow> \<not> isDrawing s \<Longrightarrow> synced s"
  by (simp add: committed_def synced_def)

lemma session_undo_all:
  assumes "\<forall>c \<in> set cs. drawing c" and "\<not> isDrawing (run cs (mount r))"
    and "history (run cs (mount r)) = h # hs"
  shows "h \<noteq> EmptyString \<and>
         history (run (replicate (length (h # hs)) (ButtonClick ''undo'')) (run cs (mount r))) = [] \<and>
         DataURL (canvas (run (replicate (length (h # hs)) (ButtonClick ''undo'')) (run cs (mount r)))) = h \<and>
         data (layers (run (replicate (length (h # hs)) (ButtonClick ''undo'')) (run cs (mount r))) ! 0) = h \<and>
         canvas (run (replicate (length (h # hs)) (ButtonClick ''undo'') @
                       replicate (length (h # hs)) (ButtonClick ''redo'')) (run cs (mount r))) =
           canvas (run cs (mount r)) \<and>
         layers (run (replicate (length (h # hs)) (ButtonClick ''undo'') @
                       replicate (length (h # hs)) (ButtonClick ''redo'')) (run cs (mount r))) =
           layers (run cs (mount r))"
proof -
  let ?s = "run cs (mount r)"
  have c: "committed ?s"
    using committed_mount assms(1) by (rule committed_run)
  then have s: "synced ?s"
    using assms(2) by (rule committed_synced)
  have a: "activeLayer ?s = 0"
    using assms(1)
  proof (induction cs rule: rev_induct)
    case Nil
    show ?case by (simp add: mount_defs)
  next
    case (snoc c cs)
    then have "activeLayer (run cs (mount r)) = 0" and "drawing c"
      by simp_all
    moreover have "activeLayer (exec c (run cs (mount r))) =
        (case c of LayerClick i \<Rightarrow> int i | _ \<Rightarrow> activeLayer (run cs (mount r)))"
      by (simp add: exec_def settle_frame handle_frame del: handle.simps)
    ultimately show ?case
      by (cases c) (simp_all add: run_append)
  qed
  from s assms(3) have "h \<noteq> EmptyString"
    by (auto simp: synced_def)
  with undo_redo_round_trip [OF s assms(3)] a show ?thesis
    by simp
qed

text \<open>
  C1 does not hold of the program. After one stroke on the blank page a click on undo
  empties the history and asks for the image with the empty source, whose \<^verbatim>\<open>onload\<close>
  never runs: the canvas and the picture of the layer still hold the stroke. The same
  happens at the second of two undos after two strokes.
\<close>

theorem undo_of_first_stroke_restores_nothing:
  "drawn1 = run stroke1 (mount (0, 0)) \<and>
   canvas (mount (0, 0)) = [] \<and> map data (layers (mount (0, 0))) = [EmptyString] \<and>
   canvas drawn1 = [line1] \<and> history drawn1 = [DataURL [line1]] \<and>
   history (exec (ButtonClick ''undo'') drawn1) = [] \<and>
   redoStack (exec (ButtonClick ''undo'') drawn1) = [DataURL [line1]] \<and>
   canvas (exec (ButtonClick ''undo'') drawn1) = [line1] \<and>
   map data (layers (exec (ButtonClick ''undo'') drawn1)) = [DataURL [line1]] \<and>
   canvas undone2 = [line1] \<and> map data (layers undone2) = [DataURL [line1]] \<and> history undone2 = []"
proof -
  have "drawn1 = run stroke1 (mount (0, 0))"
    by (simp only: drawn1_def)
  moreover have "canvas (mount (0, 0)) = []" "map data (layers (mount (0, 0))) = [EmptyString]"
    "canvas drawn1 = [line1]" "history drawn1 = [DataURL [line1]]"
    "canvas undone2 = [line1]" "map data (layers undone2) = [DataURL [line1]]" "history undone2 = []"
    by (simp_all add: sample_evals)
  moreover have "history (exec (ButtonClick ''undo'') drawn1) = []"
    "redoStack (exec (ButtonClick ''undo'') drawn1) = [DataURL [line1]]"
    "canvas (exec (ButtonClick ''undo'') drawn1) = [line1]"
    "map data (layers (exec (ButtonClick ''undo'') drawn1)) = [DataURL [line1]]"
    by (simp_all add: sample_evals exec_defs)
  ultimately show ?thesis by blast
qed

section \<open>Clearing\<close>

text \<open>
  C9, as amended. \<open>clearCanvas\<close> blanks the canvas and sets the picture of the active
  layer to the empty one, keeping its id and name. It leaves the history, the redo stack,
  the active index, the due image loads and every other layer as they are; in particular
  nothing is pushed onto the history, which keeps the snapshots made before the clear.
\<close>

theorem clearCanvas_frame:
  assumes "canvasRef s" and "ctxRef s" and "active_exists s"
  shows "clearCanvas s = Inr (state_of (clearCanvas s)) \<and>
         canvas (state_of (clearCanvas s)) = [] \<and>
         layers (state_of (clearCanvas s)) ! nat (activeLayer s) =
           (layers s ! nat (activeLayer s))\<lparr>data := EmptyString\<rparr> \<and>
         history (state_of (clearCanvas s)) = history s \<and>
         redoStack (state_of (clearCanvas s)) = redoStack s \<and>
         activeLayer (state_of (clearCanvas s)) = activeLayer s \<and>
         pending (state_of (clearCanvas s)) = pending s \<and>
         length (layers (state_of (clearCanvas s))) = length (layers s) \<and>
         (\<forall>j < length (layers s). j \<noteq> nat (activeLayer s) \<longrightarrow>
            layers (state_of (clearCanvas s)) ! j = layers s ! j)"
proof -
  from assms(3) have "nat (activeLayer s) < length (layers s)"
    by (simp add: active_exists_def nat_less_iff)
  with assms show ?thesis
    by (simp add: clearCanvas_def set_data_def layer_at_def active_exists_def clearAll_def Let_def)
qed

theorem clearCanvas_frame_witness:
  "canvasRef two_layers \<and> ctxRef two_layers \<and> active_exists two_layers \<and>
   canvas two_layers = [line1] \<and>
   canvas (state_of (clearCanvas two_layers)) = [] \<and>
   layers (state_of (clearCanvas two_layers)) =
     [\<lparr>id' = 1, name = ''Layer 1'', data = EmptyString\<rparr>,
      \<lparr>id' = 2, name = ''Layer 2'', data = EmptyString\<rparr>] \<and>
   history (state_of (clearCanvas two_layers)) = [DataURL [line1]] \<and>
   layers (state_of (clearCanvas two_layers)) ! 1 = layers two_layers ! 1"
proof -
  have h: "canvasRef two_layers" "ctxRef two_layers" "active_exists two_layers"
    by (simp_all add: two_layers_eval sample_evals active_exists_def)
  have e: "layers (state_of (clearCanvas two_layers)) =
     [\<lparr>id' = 1, name = ''Layer 1'', data = EmptyString\<rparr>,
      \<lparr>id' = 2, name = ''Layer 2'', data = EmptyString\<rparr>]"
    by (simp add: two_layers_eval sample_evals clearCanvas_def set_data_def layer_at_def Let_def)
  from clearCanvas_frame [OF h] h e show ?thesis
    by (simp add: two_layers_eval sample_evals)
qed

text \<open>
  C9 as stated fails: the clear can be undone. After the two strokes and a click on clear,
  a press and release at one point pushes the snapshot of the blank canvas; the click on
  undo that follows restores the entry below it, the picture with both lines: canvas,
  layers and history are as they were before the clear.
\<close>

theorem clear_undone_counterexample:
  "cleared = exec (ButtonClick ''clear'') drawn2 \<and>
   clicked = run [PointerDown (MouseEvent 5 5), PointerUp (MouseEvent 5 5)] cleared \<and>
   canvas drawn2 = [line1, line2] \<and>
   map data (layers drawn2) = [DataURL [line1, line2]] \<and>
   canvas cleared = [] \<and> map data (layers cleared) = [EmptyString] \<and>
   history cleared = history drawn2 \<and>
   canvas (exec (ButtonClick ''undo'') clicked) = canvas drawn2 \<and>
   layers (exec (ButtonClick ''undo'') clicked) = layers drawn2 \<and>
   history (exec (ButtonClick ''undo'') clicked) = history drawn2"
proof -
  have "cleared = exec (ButtonClick ''clear'') drawn2"
    and "clicked = run [PointerDown (MouseEvent 5 5), PointerUp (MouseEvent 5 5)] cleared"
    by (simp_all only: cleared_def clicked_def)
  moreover have "canvas drawn2 = [line1, line2]"
    "map data (layers drawn2) = [DataURL [line1, line2]]"
    "canvas cleared = []" "map data (layers cleared) = [EmptyString]"
    "history cleared = history drawn2"
    by (simp_all add: cleared_eval sample_evals)
  moreover have "canvas (exec (ButtonClick ''undo'') clicked) = canvas drawn2"
    "layers (exec (ButtonClick ''undo'') clicked) = layers drawn2"
    "history (exec (ButtonClick ''undo'') clicked) = history drawn2"
    by (simp_all add: clicked_eval cleared_eval sample_evals exec_defs)
  ultimately show ?thesis by blast
qed

section \<open>Layers\<close>

text \<open>
  In a run in which every image load ends before the next command, the layer at position
  \<open>i\<close> has id \<open>i + 1\<close> and the name "Layer " followed by \<open>i + 1\<close>, so the ids are
  strictly increasing and distinct; adding a layer appends the layer numbered
  \<open>length + 1\<close>, and no other command changes the ids, the names, their order or the
  length of the list.
\<close>

lemma layer_numbering_in_step:
  assumes "page_run cs (mount r)"
  shows "layers_numbered (layers (run cs (mount r))) \<and>
         sorted_wrt (<) (map id' (layers (run cs (mount r)))) \<and>
         distinct (map id' (layers (run cs (mount r)))) \<and>
         (\<forall>c. layers_numbered (layers (exec c (run cs (mount r)))) \<and>
            (c = AddLayerClick \<longrightarrow>
               layers (exec c (run cs (mount r))) = layers (run cs (mount r)) @
                 [\<lparr>id' = length (layers (run cs (mount r))) + 1,
                   name = ''Layer '' @ string_of_nat (length (layers (run cs (mount r))) + 1),
                   data = EmptyString\<rparr>]) \<and>
            (c \<noteq> AddLayerClick \<longrightarrow>
               map id' (layers (exec c (run cs (mount r)))) = map id' (layers (run cs (mount r))) \<and>
               map name (layers (exec c (run cs (mount r)))) = map name (layers (run cs (mount r)))))"
proof -
  let ?s = "run cs (mount r)"
  from mounted_run_ready [OF assms] have n: "layers_numbered (layers ?s)" and p: "pending ?s = []"
    by (simp_all add: ready_def)
  have "layers_numbered (layers (exec c ?s))" for c
    using p n by (rule layers_numbered_exec)
  moreover have "map id' (layers (exec c ?s)) = map id' (layers ?s) \<and>
      map name (layers (exec c ?s)) = map name (layers ?s)" if "c \<noteq> AddLayerClick" for c
    using exec_ids_names [OF p that] by (simp add: map_id_names)
  moreover have "layers (exec AddLayerClick ?s) = layers ?s @
      [\<lparr>id' = length (layers ?s) + 1,
        name = ''Layer '' @ string_of_nat (length (layers ?s) + 1), data = EmptyString\<rparr>]"
    by (simp add: exec_AddLayerClick [OF p])
  ultimately show ?thesis
    using n layers_numbered_sorted [OF n] by blast
qed

text \<open>
  C10 does not hold of the program: an operation other than adding a layer changes the
  length of the layer list. After the two strokes the handler of a click on undo starts an
  image load whose \<^verbatim>\<open>onload\<close> closure keeps the array with the one layer. A click on
  the add-layer button before that load has ended makes the layers two, with ids 1 and 2.
  When the load ends, the closure writes its copy of the old array back: the added layer is
  gone and the list has length one again.
\<close>

theorem late_undo_load_drops_added_layer:
  "undo_started = state_of (handle (ButtonClick ''undo'') drawn2) \<and>
   added_early = state_of (handle AddLayerClick undo_started) \<and>
   offered drawn2 (ButtonClick ''undo'') \<and> offered undo_started AddLayerClick \<and>
   map id' (layers drawn2) = [1] \<and>
   pending undo_started = [\<lparr>src = DataURL [line1], onload = UndoOnload (layers drawn2) 0\<rparr>] \<and>
   map id' (layers added_early) = [1, 2] \<and>
   map name (layers added_early) = [''Layer 1'', ''Layer 2''] \<and>
   pending added_early = pending undo_started \<and>
   map id' (layers (settle added_early)) = [1] \<and>
   map name (layers (settle added_early)) = [''Layer 1''] \<and>
   length (layers (settle added_early)) = 1"
proof -
  have "undo_started = state_of (handle (ButtonClick ''undo'') drawn2)"
    and "added_early = state_of (handle AddLayerClick undo_started)"
    by (simp_all only: undo_started_def added_early_def)
  moreover have "offered drawn2 (ButtonClick ''undo'')" "offered undo_started AddLayerClick"
    by (simp_all add: tools_def)
  moreover have "map id' (layers drawn2) = [1]"
    "pending undo_started = [\<lparr>src = DataURL [line1], onload = UndoOnload (layers drawn2) 0\<rparr>]"
    "map id' (layers added_early) = [1, 2]"
    "map name (layers added_early) = [''Layer 1'', ''Layer 2'']"
    "pending added_early = pending undo_started"
    by (simp_all add: late_evals sample_evals)
  moreover have "map id' (layers (settle added_early)) = [1]"
    "map name (layers (settle added_early)) = [''Layer 1'']"
    "length (layers (settle added_early)) = 1"
    by (simp_all add: late_evals sample_evals settle_def deliver_def undo_onload_def
          set_data_def layer_at_def)
  ultimately show ?thesis by blast
qed

text \<open>
  C4, as amended. \<open>selectLayer\<close> stores the index it is given as the active index, with no
  range check, and leaves the layers alone. The page calls it only from the buttons of the
  layers that exist, so right after the call the active index references an existing
  layer. In every run through the page in which each image load ends before the next
  command, the active index references an existing layer, and no handler and no
  \<^verbatim>\<open>onload\<close> callback of a command the page offers throws.
\<close>

theorem selectLayer_sets_index_unchecked:
  "activeLayer (selectLayer index s) = index \<and>
   layers (selectLayer index s) = layers s \<and>
   (offered s (LayerClick i) \<longrightarrow> active_exists (selectLayer (int i) s)) \<and>
   (page_run cs (mount r) \<longrightarrow>
      active_exists (run cs (mount r)) \<and>
      (\<forall>c. offered (run cs (mount r)) c \<longrightarrow>
         handle c (run cs (mount r)) = Inr (state_of (handle c (run cs (mount r)))) \<and>
         (\<forall>i \<in> set (pending (state_of (handle c (run cs (mount r))))).
            \<forall>t. deliver i t = Inr (state_of (deliver i t))) \<and>
         active_exists (exec c (run cs (mount r)))))"
proof -
  let ?s = "run cs (mount r)"
  have "active_exists ?s \<and>
      (\<forall>c. offered ?s c \<longrightarrow>
         handle c ?s = Inr (state_of (handle c ?s)) \<and>
         (\<forall>i \<in> set (pending (state_of (handle c ?s))). \<forall>t. deliver i t = Inr (state_of (deliver i t))) \<and>
         active_exists (exec c ?s))" if r: "page_run cs (mount r)"
  proof -
    from mounted_run_ready [OF r] have rd: "ready ?s" by simp
    then have a: "active_exists ?s" and p: "pending ?s = []" by (simp_all add: ready_def)
    have "active_exists (exec c ?s)" if "offered ?s c" for c
      using ready_exec [OF rd that] by (simp add: ready_def)
    then show ?thesis
      using a handle_returns [OF rd] deliver_returns [OF a _ p] by blast
  qed
  then show ?thesis by (simp add: selectLayer_def active_exists_def)
qed

theorem selectLayer_sets_index_unchecked_witness:
  "page_run (stroke1 @ stroke2 @ [AddLayerClick, LayerClick 1]) (mount (0, 0)) \<and>
   run (stroke1 @ stroke2 @ [AddLayerClick, LayerClick 1]) (mount (0, 0)) = on_layer2 \<and>
   offered layered (LayerClick 1) \<and> length (layers layered) = 2 \<and>
   activeLayer (selectLayer 1 layered) = 1 \<and> active_exists (selectLayer 1 layered) \<and>
   activeLayer on_layer2 = 1 \<and> active_exists on_layer2 \<and>
   offered on_layer2 (LayerClick 0) \<and>
   handle (LayerClick 0) on_layer2 = Inr (state_of (handle (LayerClick 0) on_layer2)) \<and>
   pending (state_of (handle (LayerClick 0) on_layer2)) =
     [\<lparr>src = DataURL [line1, line2], onload = LoadLayerOnload\<rparr>] \<and>
   activeLayer (exec (LayerClick 0) on_layer2) = 0 \<and>
   canvas (exec (LayerClick 0) on_layer2) = [line1, line2] \<and>
   active_exists (exec (LayerClick 0) on_layer2) \<and>
   offered on_layer2 (ButtonClick ''undo'') \<and>
   handle (ButtonClick ''undo'') on_layer2 = Inr (state_of (handle (ButtonClick ''undo'') on_layer2)) \<and>
   pending (state_of (handle (ButtonClick ''undo'') on_layer2)) =
     [\<lparr>src = DataURL [line1], onload = UndoOnload (layers on_layer2) 1\<rparr>] \<and>
   deliver \<lparr>src = DataURL [line1], onload = UndoOnload (layers on_layer2) 1\<rparr> on_layer2 =
     Inr (state_of (deliver \<lparr>src = DataURL [line1], onload = UndoOnload (layers on_layer2) 1\<rparr> on_layer2)) \<and>
   canvas (exec (ButtonClick ''undo'') on_layer2) = [line1] \<and>
   active_exists (exec (ButtonClick ''undo'') on_layer2)"
proof -
  let ?cs = "stroke1 @ stroke2 @ [AddLayerClick, LayerClick 1]"
  have run: "run ?cs (mount (0, 0)) = on_layer2"
    by (simp only: run_append run.simps drawn1_def drawn2_def layered_def on_layer2_def)
  have l: "length (layers layered) = 2" "offered layered (LayerClick 1)"
    by (simp_all add: layered_eval sample_evals)
  have "page_run stroke1 s \<and> page_run stroke2 s" for s
    by (simp add: stroke1_def stroke2_def)
  then have pr: "page_run ?cs (mount (0, 0))"
    using l(2)
    by (simp add: page_run_append run_append drawn1_def [symmetric] drawn2_def [symmetric]
          layered_def [symmetric] del: run.simps)
  have o: "offered on_layer2 (LayerClick 0)" "offered on_layer2 (ButtonClick ''undo'')"
    by (simp_all add: on_layer2_eval layered_eval sample_evals tools_def)
  have p: "pending (state_of (handle (LayerClick 0) on_layer2)) =
       [\<lparr>src = DataURL [line1, line2], onload = LoadLayerOnload\<rparr>]"
    "pending (state_of (handle (ButtonClick ''undo'') on_layer2)) =
       [\<lparr>src = DataURL [line1], onload = UndoOnload (layers on_layer2) 1\<rparr>]"
    by (simp_all add: on_layer2_eval layered_eval sample_evals selectLayer_def layerEffect_def
          loadLayer_def handleButtonClick_def undo_def layer_at_def Let_def)
  have v: "activeLayer on_layer2 = 1" "activeLayer (exec (LayerClick 0) on_layer2) = 0"
    "canvas (exec (LayerClick 0) on_layer2) = [line1, line2]"
    "canvas (exec (ButtonClick ''undo'') on_layer2) = [line1]"
    by (simp_all add: on_layer2_eval layered_eval sample_evals exec_defs)
  from selectLayer_sets_index_unchecked [of 1 layered 1 ?cs "(0, 0)"] pr l(2)
  have a: "activeLayer (selectLayer 1 layered) = 1" "active_exists (selectLayer 1 layered)"
    "active_exists on_layer2"
    and all: "\<And>c. offered on_layer2 c \<Longrightarrow>
         handle c on_layer2 = Inr (state_of (handle c on_layer2)) \<and>
         (\<forall>i \<in> set (pending (state_of (handle c on_layer2))).
            \<forall>t. deliver i t = Inr (state_of (deliver i t))) \<and>
         active_exists (exec c on_layer2)"
    unfolding run by simp_all
  from all [OF o(1)] have c1: "handle (LayerClick 0) on_layer2 = Inr (state_of (handle (LayerClick 0) on_layer2))"
    "active_exists (exec (LayerClick 0) on_layer2)"
    by blast+
  from all [OF o(2)] have c2: "handle (ButtonClick ''undo'') on_layer2 =
      Inr (state_of (handle (ButtonClick ''undo'') on_layer2))"
    "active_exists (exec (ButtonClick ''undo'') on_layer2)"
    and d': "\<forall>i \<in> set (pending (state_of (handle (ButtonClick ''undo'') on_layer2))).
          \<forall>t. deliver i t = Inr (state_of (deliver i t))"
    by blast+
  from d' have d: "deliver \<lparr>src = DataURL [line1], onload = UndoOnload (layers on_layer2) 1\<rparr> on_layer2 =
     Inr (state_of (deliver \<lparr>src = DataURL [line1], onload = UndoOnload (layers on_layer2) 1\<rparr> on_layer2))"
    unfolding p by simp
  from pr run l a o p v c1 c2 d show ?thesis by blast
qed

text \<open>
  C4 as stated fails, also with nothing but clicks on the page. After the two strokes:
  a click on undo, then on the add-layer button and on the button of the second layer
  before the image load of undo has ended. When it ends, its closure writes the array with
  the one layer back; the active index is still 1 and references no layer, and a click on
  clear then throws on \<^verbatim>\<open>newLayers[1].data\<close>. Called with an index out of range,
  as no button does, \<open>selectLayer\<close> stores it all the same: with one layer,
  \<open>selectLayer 5\<close> makes 5 the active index and \<open>loadLayer\<close> throws.
\<close>

theorem selectLayer_out_of_range_counterexample:
  "undo_started = state_of (handle (ButtonClick ''undo'') drawn2) \<and>
   added_early = state_of (handle AddLayerClick undo_started) \<and>
   selected_early = state_of (handle (LayerClick 1) added_early) \<and>
   offered drawn2 (ButtonClick ''undo'') \<and> offered undo_started AddLayerClick \<and>
   offered added_early (LayerClick 1) \<and>
   active_exists selected_early \<and>
   activeLayer (settle selected_early) = 1 \<and>
   length (layers (settle selected_early)) = 1 \<and>
   \<not> active_exists (settle selected_early) \<and>
   offered (settle selected_early) (ButtonClick ''clear'') \<and>
   clearCanvas (settle selected_early) = Inl (TypeError, (settle selected_early)\<lparr>canvas := []\<rparr>) \<and>
   activeLayer (selectLayer 5 (mount (0, 0))) = 5 \<and>
   \<not> active_exists (selectLayer 5 (mount (0, 0))) \<and>
   loadLayer (selectLayer 5 (mount (0, 0))) = Inl (TypeError, selectLayer 5 (mount (0, 0)))"
proof -
  have "undo_started = state_of (handle (ButtonClick ''undo'') drawn2)"
    and "added_early = state_of (handle AddLayerClick undo_started)"
    and "selected_early = state_of (handle (LayerClick 1) added_early)"
    by (simp_all only: undo_started_def added_early_def selected_early_def)
  moreover have "offered drawn2 (ButtonClick ''undo'')" "offered undo_started AddLayerClick"
    "offered added_early (LayerClick 1)" "offered (settle selected_early) (ButtonClick ''clear'')"
    by (simp_all add: tools_def late_evals sample_evals)
  moreover have "active_exists selected_early"
    by (simp add: active_exists_def late_evals sample_evals)
  moreover have s: "settle selected_early =
      selected_early\<lparr>pending := [], canvas := [line1],
        layers := [\<lparr>id' = 1, name = ''Layer 1'', data = DataURL [line1]\<rparr>]\<rparr>"
    by (simp add: late_evals sample_evals settle_def deliver_def undo_onload_def
          set_data_def layer_at_def clearAll_def drawImage_def)
  moreover have "activeLayer (settle selected_early) = 1"
    "length (layers (settle selected_early)) = 1"
    "\<not> active_exists (settle selected_early)"
    "clearCanvas (settle selected_early) = Inl (TypeError, (settle selected_early)\<lparr>canvas := []\<rparr>)"
    unfolding s
    by (simp_all add: late_evals sample_evals active_exists_def clearCanvas_def set_data_def
          layer_at_def clearAll_def Let_def)
  moreover have "activeLayer (selectLayer 5 (mount (0, 0))) = 5"
    "\<not> active_exists (selectLayer 5 (mount (0, 0)))"
    "loadLayer (selectLayer 5 (mount (0, 0))) = Inl (TypeError, selectLayer 5 (mount (0, 0)))"
    by (simp_all add: mount_origin selectLayer_def active_exists_def loadLayer_def layer_at_def)
  ultimately show ?thesis by blast
qed

section \<open>Tools\<close>

text \<open>
  C3, as amended. With the rectangle or the circle tool a move renders nothing: canvas,
  layers, both stacks and the due image loads stay as they are, so there is no preview.
  The release strokes the shape from the anchor to the release point on the canvas and
  pushes the snapshot of that canvas onto the history.
\<close>

theorem shape_tools_render_on_release_only:
  assumes "tool s = ''rectangle'' \<or> tool s = ''circle''"
  shows "canvas (draw e s) = canvas s \<and> layers (draw e s) = layers s \<and>
         history (draw e s) = history s \<and> redoStack (draw e s) = redoStack s \<and>
         pending (draw e s) = pending s \<and>
         (ctxRef s \<and> canvasRef s \<and> isDrawing s \<and> startPos s = Some (x, y) \<and> active_exists s \<and>
          0 < brushSize s \<and> getEventPos s (Some e) = (offsetX, offsetY) \<longrightarrow>
            canvas (state_of (endDrawing (Some e) s)) = canvas s @
              [if tool s = ''rectangle''
               then StrokeRect x y (offsetX - x) (offsetY - y) (color s) (brushSize s)
               else Stroke [Arc x y (sqrt ((offsetX - x) * (offsetX - x) + (offsetY - y) * (offsetY - y)))]
                      (color s) (brushSize s)] \<and>
            history (state_of (endDrawing (Some e) s)) =
              history s @ [DataURL (canvas (state_of (endDrawing (Some e) s)))])"
  using assms
  by (auto simp: draw_def endDrawing_def strokeShape_def setStyle_def set_data_def layer_at_def
        active_exists_def toDataURL_def Let_def split: prod.splits)

theorem shape_tools_render_on_release_only_witness:
  "tool rect_drag = ''rectangle'' \<and> ctxRef rect_drag \<and> canvasRef rect_drag \<and> isDrawing rect_drag \<and>
   startPos rect_drag = Some (0, 0) \<and> active_exists rect_drag \<and> 0 < brushSize rect_drag \<and>
   getEventPos rect_drag (Some (MouseEvent 100 50)) = (100, 50) \<and>
   canvas (draw (MouseEvent 100 50) rect_drag) = [] \<and>
   layers (draw (MouseEvent 100 50) rect_drag) = layers rect_drag \<and>
   history (draw (MouseEvent 100 50) rect_drag) = [] \<and>
   canvas (state_of (endDrawing (Some (MouseEvent 100 50)) rect_drag)) =
     [StrokeRect 0 0 100 50 ''#000000'' 5] \<and>
   history (state_of (endDrawing (Some (MouseEvent 100 50)) rect_drag)) =
     [DataURL [StrokeRect 0 0 100 50 ''#000000'' 5]]"
proof -
  have h: "tool rect_drag = ''rectangle''" "ctxRef rect_drag" "canvasRef rect_drag"
    "isDrawing rect_drag" "startPos rect_drag = Some (0, 0)" "active_exists rect_drag"
    "0 < brushSize rect_drag" "getEventPos rect_drag (Some (MouseEvent 100 50)) = (100, 50)"
    by (simp_all add: rect_drag_eval sample_evals getEventPos_def active_exists_def)
  have c: "canvas rect_drag = []" "history rect_drag = []" "color rect_drag = ''#000000''"
    "brushSize rect_drag = 5"
    by (simp_all add: rect_drag_eval sample_evals)
  from h(1) have "tool rect_drag = ''rectangle'' \<or> tool rect_drag = ''circle''" ..
  from shape_tools_render_on_release_only [OF this, of "MouseEvent 100 50" 0 0 100 50] h
  show ?thesis
    by (simp add: c)
qed

text \<open>
  C3 as stated fails. With the rectangle tool, after a press at the origin of the blank
  page, a move to \<open>(100, 50)\<close> leaves the canvas blank: no preview is rendered.
\<close>

theorem shape_preview_counterexample:
  "rect_drag = exec (PointerDown (MouseEvent 0 0)) (exec (ButtonClick ''rectangle'') (mount (0, 0))) \<and>
   tool rect_drag = ''rectangle'' \<and> isDrawing rect_drag \<and> startPos rect_drag = Some (0, 0) \<and>
   canvas (exec (PointerMove (MouseEvent 100 50)) rect_drag) = []"
proof -
  have "rect_drag = exec (PointerDown (MouseEvent 0 0)) (exec (ButtonClick ''rectangle'') (mount (0, 0)))"
    by (simp only: rect_drag_def)
  moreover have "tool rect_drag = ''rectangle''" "isDrawing rect_drag" "startPos rect_drag = Some (0, 0)"
    "canvas (exec (PointerMove (MouseEvent 100 50)) rect_drag) = []"
    by (simp_all add: rect_drag_eval sample_evals exec_defs)
  ultimately show ?thesis by blast
qed

text \<open>
  C6, as amended. With the eraser tool the press clears nothing and leaves canvas and layers
  as they are; every move of an active gesture clears the square of side \<open>brushSize\<close>
  centred at the event's point on the canvas at once, and the stored layers stay unchanged
  until the release.
\<close>

theorem eraser_erases_on_move_only:
  assumes "tool s = ''eraser''"
  shows "canvas (startDrawing e s) = canvas s \<and> layers (startDrawing e s) = layers s \<and>
         (isDrawing s \<and> startPos s \<noteq> None \<and> ctxRef s \<and> getEventPos s (Some e) = (x, y) \<longrightarrow>
            canvas (draw e s) = canvas s @
              [ClearRect (x - brushSize s / 2) (y - brushSize s / 2) (brushSize s) (brushSize s)] \<and>
            layers (draw e s) = layers s)"
  using assms by (auto simp: startDrawing_def draw_def Let_def split: prod.splits)

theorem eraser_erases_on_move_only_witness:
  "tool erasing = ''eraser'' \<and> isDrawing erasing \<and> startPos erasing \<noteq> None \<and> ctxRef erasing \<and>
   getEventPos erasing (Some (MouseEvent 30 10)) = (30, 10) \<and>
   canvas (startDrawing (MouseEvent 30 10) erasing) = [line1] \<and>
   canvas (draw (MouseEvent 30 10) erasing) = [line1, ClearRect (55 / 2) (15 / 2) 5 5] \<and>
   layers (draw (MouseEvent 30 10) erasing) = layers erasing"
proof -
  have h: "tool erasing = ''eraser''" "isDrawing erasing" "startPos erasing \<noteq> None"
    "ctxRef erasing" "getEventPos erasing (Some (MouseEvent 30 10)) = (30, 10)"
    by (simp_all add: erasing_eval sample_evals getEventPos_def)
  have c: "canvas erasing = [line1]" "brushSize erasing = 5"
    by (simp_all add: erasing_eval sample_evals)
  from eraser_erases_on_move_only [OF h(1), of "MouseEvent 30 10" 30 10] h
  show ?thesis
    by (simp add: c)
qed

text \<open>
  C6 as stated fails. After the first stroke, with the eraser chosen, a press on the stroke
  at \<open>(30, 10)\<close> leaves the canvas as it was: the point of the press is still painted.
\<close>

theorem eraser_press_counterexample:
  "erasing = exec (PointerDown (MouseEvent 30 10)) (exec (ButtonClick ''eraser'') drawn1) \<and>
   tool erasing = ''eraser'' \<and>
   canvas erasing = canvas drawn1 \<and>
   canvas erasing = [line1] \<and>
   pixel band_ink (canvas erasing) (30, 10) = Some ''#000000''"
proof -
  have "erasing = exec (PointerDown (MouseEvent 30 10)) (exec (ButtonClick ''eraser'') drawn1)"
    by (simp only: erasing_def)
  moreover have "tool erasing = ''eraser''" "canvas erasing = canvas drawn1" "canvas erasing = [line1]"
    by (simp_all add: erasing_eval sample_evals)
  moreover from this(3) have "pixel band_ink (canvas erasing) (30, 10) = Some ''#000000''"
    by (simp add: pixel_line1)
  ultimately show ?thesis by blast
qed

text \<open>
  C7. One eraser move at the point \<open>(x, y)\<close> with brush size \<open>s > 0\<close> makes every
  point of the square \<open>[x - s/2, x + s/2] \<times> [y - s/2, y + s/2]\<close> transparent and leaves
  every point outside it as it was, whatever the rasteriser does for strokes.
\<close>

theorem eraser_clears_exactly_the_square:
  assumes "isDrawing s" and "startPos s \<noteq> None" and "ctxRef s" and "tool s = ''eraser''"
    and "0 < brushSize s" and "getEventPos s (Some e) = (x, y)"
  shows "pixel ink (canvas (draw e s)) (px, py) =
           (if x - brushSize s / 2 \<le> px \<and> px \<le> x + brushSize s / 2 \<and>
               y - brushSize s / 2 \<le> py \<and> py \<le> y + brushSize s / 2
            then None else pixel ink (canvas s) (px, py))"
  using assms by (auto simp: draw_def Let_def pixel_snoc in_rect_def)

theorem eraser_clears_exactly_the_square_witness:
  "isDrawing erasing \<and> startPos erasing \<noteq> None \<and> ctxRef erasing \<and> tool erasing = ''eraser'' \<and>
   0 < brushSize erasing \<and> getEventPos erasing (Some (MouseEvent 30 10)) = (30, 10) \<and>
   pixel band_ink (canvas erasing) (30, 10) = Some ''#000000'' \<and>
   pixel band_ink (canvas (draw (MouseEvent 30 10) erasing)) (30, 10) = None \<and>
   pixel band_ink (canvas (draw (MouseEvent 30 10) erasing)) (32, 11) = None \<and>
   pixel band_ink (canvas (draw (MouseEvent 30 10) erasing)) (33, 10) = Some ''#000000''"
proof -
  have h: "isDrawing erasing" "startPos erasing \<noteq> None" "ctxRef erasing"
    "tool erasing = ''eraser''" "0 < brushSize erasing"
    "getEventPos erasing (Some (MouseEvent 30 10)) = (30, 10)"
    by (simp_all add: erasing_eval sample_evals getEventPos_def)
  have c: "canvas erasing = [line1]" "brushSize erasing = 5"
    by (simp_all add: erasing_eval sample_evals)
  from eraser_clears_exactly_the_square [OF h, of band_ink 30 10]
    eraser_clears_exactly_the_square [OF h, of band_ink 32 11]
    eraser_clears_exactly_the_square [OF h, of band_ink 33 10] h
  show ?thesis
    by (simp add: c pixel_line1)
qed

end
